theory Spec2Isabelle
  imports Complex_Main "HOL-Library.Word" "HOL-Library.AList"
begin

unbundle bit_operations_syntax

section \<open>Flashcard entries and the playback engine state\<close>

text \<open>
  The data model of \<^verbatim>\<open>types\<close>: a \<^verbatim>\<open>FlashcardEntry\<close>, the \<^verbatim>\<open>PlaybackPhase\<close> union,
  \<^verbatim>\<open>PlaybackState\<close> and \<^verbatim>\<open>TimeWindow\<close>. A JavaScript \<^verbatim>\<open>number\<close> that holds a time is a
  \<^typ>\<open>real\<close>; an array index or a line number is a \<^typ>\<open>nat\<close>. The engine starts with
  the window \<^verbatim>\<open>{ startTime: 0, endTime: Infinity }\<close>, so the end of a window is a real
  or \<^verbatim>\<open>Infinity\<close>. The field \<^verbatim>\<open>id\<close> of an entry is \<open>entry_id\<close> here.
\<close>

record FlashcardEntry =
  entry_id :: nat
  englishWord :: string
  spanishWord :: string
  spanishSentence :: string
  estimatedDuration :: real
  cumulativeStartTime :: real

datatype PlaybackPhase =
  Idle | English | PauseAfterEnglish | SpanishWord | PauseAfterSpanishWord
  | SpanishSentence | BetweenEntries

record PlaybackState =
  isPlaying :: bool
  isPaused :: bool
  currentEntryIndex :: nat
  currentPhase :: PlaybackPhase
  elapsedTime :: real
  playbackRate :: real

datatype time_bound = Finite real | Infinity

record TimeWindow =
  startTime :: real
  endTime :: time_bound

text \<open>\<^verbatim>\<open>x >= bound\<close> and \<^verbatim>\<open>x < bound\<close> for a bound that may be \<^verbatim>\<open>Infinity\<close>.\<close>

fun reaches :: "real \<Rightarrow> time_bound \<Rightarrow> bool" where
  "reaches x (Finite b) = (b \<le> x)"
| "reaches x Infinity = False"

fun before :: "real \<Rightarrow> time_bound \<Rightarrow> bool" where
  "before x (Finite b) = (x < b)"
| "before x Infinity = True"

datatype lang = En | Es

text \<open>
  The engine never returns anything to its caller: what it does is seen through the
  callbacks and through its calls of the text-to-speech service. The field \<open>events\<close>
  records them in the order they happen (an optional callback \<^verbatim>\<open>cb?.()\<close> is recorded
  where the source reaches the call).
\<close>

datatype event =
  StateChange PlaybackState
  | EntryChange FlashcardEntry nat
  | PhaseChange PlaybackPhase
  | Complete
  | TtsSpeak string lang real
  | TtsPause
  | TtsResume
  | TtsCancel
  | Timeout real

text \<open>
  \<open>abortController\<close> is \<open>None\<close> for \<^verbatim>\<open>null\<close> and \<open>Some b\<close> for a controller whose
  \<^verbatim>\<open>signal.aborted\<close> is \<open>b\<close>; \<open>timeUpdateInterval\<close> tells whether the 100 ms interval
  timer is installed.
\<close>

record engine =
  entries :: "FlashcardEntry list"
  timeWindow :: TimeWindow
  state :: PlaybackState
  abortController :: "bool option"
  timeUpdateInterval :: bool
  events :: "event list"

definition createInitialState :: PlaybackState where
  "createInitialState =
     \<lparr>isPlaying = False, isPaused = False, currentEntryIndex = 0,
      currentPhase = Idle, elapsedTime = 0, playbackRate = 1\<rparr>"

definition newEngine :: engine where
  "newEngine =
     \<lparr>entries = [], timeWindow = \<lparr>startTime = 0, endTime = Infinity\<rparr>,
      state = createInitialState, abortController = None,
      timeUpdateInterval = False, events = []\<rparr>"

definition emit :: "event \<Rightarrow> engine \<Rightarrow> engine" where
  "emit ev e = e\<lparr>events := events e @ [ev]\<rparr>"

definition notifyStateChange :: "engine \<Rightarrow> engine" where
  "notifyStateChange e = emit (StateChange (state e)) e"

text \<open>\<^verbatim>\<open>this.entries[this.state.currentEntryIndex] || null\<close>\<close>

definition getCurrentEntry :: "engine \<Rightarrow> FlashcardEntry option" where
  "getCurrentEntry e =
     (if currentEntryIndex (state e) < length (entries e)
      then Some (entries e ! currentEntryIndex (state e)) else None)"

definition notifyEntryChange :: "engine \<Rightarrow> engine" where
  "notifyEntryChange e =
     (case getCurrentEntry e of
        None \<Rightarrow> e
      | Some entry \<Rightarrow> emit (EntryChange entry (currentEntryIndex (state e))) e)"

definition setEntries :: "FlashcardEntry list \<Rightarrow> engine \<Rightarrow> engine" where
  "setEntries es e =
     notifyStateChange
       (e\<lparr>entries := es, state := (state e)\<lparr>currentEntryIndex := 0\<rparr>\<rparr>)"

text \<open>\<^verbatim>\<open>Array.prototype.findIndex\<close>: the first index whose element passes, \<open>None\<close> for -1.\<close>

fun findIndex :: "('a \<Rightarrow> bool) \<Rightarrow> 'a list \<Rightarrow> nat option" where
  "findIndex p [] = None"
| "findIndex p (x # xs) =
     (if p x then Some 0 else map_option Suc (findIndex p xs))"

definition inWindow :: "TimeWindow \<Rightarrow> FlashcardEntry \<Rightarrow> bool" where
  "inWindow w entry \<longleftrightarrow>
     startTime w \<le> cumulativeStartTime entry \<and> before (cumulativeStartTime entry) (endTime w)"

definition setTimeWindow :: "TimeWindow \<Rightarrow> engine \<Rightarrow> engine" where
  "setTimeWindow w e =
     (let e1 = e\<lparr>timeWindow := w\<rparr> in
      case findIndex (inWindow w) (entries e1) of
        None \<Rightarrow> e1
      | Some startIndex \<Rightarrow>
          if \<not> isPlaying (state e1)
          then notifyEntryChange (e1\<lparr>state := (state e1)\<lparr>currentEntryIndex := startIndex\<rparr>\<rparr>)
          else e1)"

definition setRate :: "real \<Rightarrow> engine \<Rightarrow> engine" where
  "setRate rate e =
     notifyStateChange (e\<lparr>state := (state e)\<lparr>playbackRate := max (1/2) (min 2 rate)\<rparr>\<rparr>)"

definition stopTimeTracking :: "engine \<Rightarrow> engine" where
  "stopTimeTracking e = e\<lparr>timeUpdateInterval := False\<rparr>"

definition startTimeTracking :: "engine \<Rightarrow> engine" where
  "startTimeTracking e = e\<lparr>timeUpdateInterval := True\<rparr>"

definition pause :: "engine \<Rightarrow> engine" where
  "pause e =
     (if \<not> isPlaying (state e) \<or> isPaused (state e) then e
      else notifyStateChange (stopTimeTracking (emit TtsPause
             (e\<lparr>state := (state e)\<lparr>isPaused := True\<rparr>\<rparr>))))"

definition resume :: "engine \<Rightarrow> engine" where
  "resume e =
     (if \<not> isPaused (state e) then e
      else notifyStateChange (startTimeTracking (emit TtsResume
             (e\<lparr>state := (state e)\<lparr>isPaused := False\<rparr>\<rparr>))))"

text \<open>
  \<^verbatim>\<open>stop()\<close>: abort and drop the controller, cancel the speech, remove the interval
  timer, then three assignments to the state and one notification.
\<close>

definition stop :: "engine \<Rightarrow> engine" where
  "stop e =
     (let e1 = stopTimeTracking (emit TtsCancel (e\<lparr>abortController := None\<rparr>));
          e2 = e1\<lparr>state := (state e1)\<lparr>isPlaying := False, isPaused := False,
                                        currentPhase := Idle\<rparr>\<rparr>
      in notifyStateChange e2)"

subsection \<open>One play session, run to its end\<close>

text \<open>
  \<^verbatim>\<open>play()\<close> is an \<^verbatim>\<open>async\<close> method. The definitions below follow one session in
  which nothing else calls into the engine while it runs (no \<^verbatim>\<open>stop\<close>, \<^verbatim>\<open>pause\<close>,
  \<^verbatim>\<open>next\<close> between two steps), so every \<^verbatim>\<open>await\<close> is followed at once by its
  continuation; the ticks of the 100 ms interval timer, which only add to
  \<^verbatim>\<open>elapsedTime\<close>, are left out. A step ends in one of three ways: it returns, it
  throws, or it waits for something that only another call could bring about.
\<close>

datatype error = AbortError | SpeechError string

datatype outcome = Finished | Threw error | Blocked

text \<open>
  The speech service as the engine sees it: \<open>tts text lang\<close> is \<open>None\<close> when the audio
  for \<open>text\<close> plays to its end and \<open>Some msg\<close> when \<^verbatim>\<open>speak\<close> rejects with \<open>msg\<close>.
\<close>

type_synonym speech = "string \<Rightarrow> lang \<Rightarrow> string option"

definition PAUSE_AFTER_ENGLISH :: real where "PAUSE_AFTER_ENGLISH = 15 / 10"
definition PAUSE_AFTER_SPANISH_WORD :: real where "PAUSE_AFTER_SPANISH_WORD = 8 / 10"
definition PAUSE_BETWEEN_ENTRIES :: real where "PAUSE_BETWEEN_ENTRIES = 1"

definition andThen :: "outcome \<times> engine \<Rightarrow> (engine \<Rightarrow> outcome \<times> engine) \<Rightarrow> outcome \<times> engine" where
  "andThen r f = (case r of (Finished, e) \<Rightarrow> f e | _ \<Rightarrow> r)"

text \<open>\<^verbatim>\<open>signal?.aborted\<close>, with \<^verbatim>\<open>signal = this.abortController?.signal\<close>.\<close>

definition signalAborted :: "engine \<Rightarrow> bool" where
  "signalAborted e \<longleftrightarrow> abortController e = Some True"

text \<open>
  \<^verbatim>\<open>while (this.state.isPaused) await new Promise(r => setTimeout(r, 100))\<close>: with
  nobody to call \<^verbatim>\<open>resume\<close>, a paused engine polls for ever.
\<close>

definition waitWhilePaused :: "engine \<Rightarrow> outcome \<times> engine" where
  "waitWhilePaused e = (if isPaused (state e) then (Blocked, e) else (Finished, e))"

definition speakWithAbort :: "speech \<Rightarrow> string \<Rightarrow> lang \<Rightarrow> real \<Rightarrow> engine \<Rightarrow> outcome \<times> engine" where
  "speakWithAbort tts text lg rate e =
     (if signalAborted e then (Threw AbortError, e)
      else
        let e1 = emit (TtsSpeak text lg rate) e in
        case tts text lg of
          None \<Rightarrow> waitWhilePaused e1
        | Some msg \<Rightarrow> (Threw (SpeechError msg), e1))"

definition delayWithAbort :: "real \<Rightarrow> engine \<Rightarrow> outcome \<times> engine" where
  "delayWithAbort ms e =
     (if signalAborted e then (Threw AbortError, e)
      else waitWhilePaused (emit (Timeout ms) e))"

definition setPhase :: "PlaybackPhase \<Rightarrow> engine \<Rightarrow> engine" where
  "setPhase phase e =
     notifyStateChange (emit (PhaseChange phase) (e\<lparr>state := (state e)\<lparr>currentPhase := phase\<rparr>\<rparr>))"

definition playEntry :: "speech \<Rightarrow> FlashcardEntry \<Rightarrow> engine \<Rightarrow> outcome \<times> engine" where
  "playEntry tts entry e =
     (let rate = playbackRate (state e) in
      andThen (speakWithAbort tts (englishWord entry) En rate (setPhase English e)) (\<lambda>e.
      if signalAborted e then (Finished, e) else
      andThen (delayWithAbort (PAUSE_AFTER_ENGLISH * 1000 / rate) (setPhase PauseAfterEnglish e)) (\<lambda>e.
      if signalAborted e then (Finished, e) else
      andThen (speakWithAbort tts (spanishWord entry) Es rate (setPhase SpanishWord e)) (\<lambda>e.
      if signalAborted e then (Finished, e) else
      andThen (delayWithAbort (PAUSE_AFTER_SPANISH_WORD * 1000 / rate) (setPhase PauseAfterSpanishWord e)) (\<lambda>e.
      if signalAborted e then (Finished, e) else
      andThen (speakWithAbort tts (spanishSentence entry) Es rate (setPhase SpanishSentence e)) (\<lambda>e.
      if signalAborted e then (Finished, e) else
      delayWithAbort (PAUSE_BETWEEN_ENTRIES * 1000 / rate) (setPhase BetweenEntries e)))))))"

text \<open>
  What a play session never touches: everything but the trace and the phase. The loop
  of \<^verbatim>\<open>playFromCurrent\<close> ends because \<^verbatim>\<open>playEntry\<close> keeps the entries and the index.
\<close>

definition frame ::
  "engine \<Rightarrow> FlashcardEntry list \<times> TimeWindow \<times> bool option \<times> bool \<times> bool \<times> bool \<times> nat \<times> real \<times> real" where
  "frame e = (entries e, timeWindow e, abortController e, timeUpdateInterval e,
      isPlaying (state e), isPaused (state e), currentEntryIndex (state e),
      elapsedTime (state e), playbackRate (state e))"

lemma frame_emit [simp]: "frame (emit ev e) = frame e"
  by (simp add: frame_def emit_def)

lemma frame_notifyStateChange [simp]: "frame (notifyStateChange e) = frame e"
  by (simp add: notifyStateChange_def)

lemma frame_setPhase [simp]: "frame (setPhase p e) = frame e"
  by (simp add: setPhase_def) (simp add: frame_def)

lemma frame_waitWhilePaused [simp]: "frame (snd (waitWhilePaused e)) = frame e"
  by (simp add: waitWhilePaused_def)

lemma frame_speakWithAbort [simp]: "frame (snd (speakWithAbort tts t l r e)) = frame e"
  by (simp add: speakWithAbort_def Let_def split: option.splits)

lemma frame_delayWithAbort [simp]: "frame (snd (delayWithAbort ms e)) = frame e"
  by (simp add: delayWithAbort_def)

lemma frame_andThen:
  "(\<And>e'. frame (snd (f e')) = frame e') \<Longrightarrow> frame (snd (andThen r f)) = frame (snd r)"
  by (cases r) (simp add: andThen_def split: outcome.splits)

lemma frame_playEntry: "frame (snd (playEntry tts entry e)) = frame e"
  unfolding playEntry_def Let_def
  by (simp add: frame_andThen)

lemma playEntry_keeps:
  assumes "(r, e1) = playEntry tts entry e"
  shows "entries e1 = entries e"
    and "currentEntryIndex (state e1) = currentEntryIndex (state e)"
proof -
  have "frame (snd (playEntry tts entry e)) = frame e"
    by (rule frame_playEntry)
  with assms [symmetric] have "frame e1 = frame e"
    by simp
  then show "entries e1 = entries e"
    and "currentEntryIndex (state e1) = currentEntryIndex (state e)"
    by (simp_all add: frame_def)
qed

lemma notifyEntryChange_keeps [simp]:
  "entries (notifyEntryChange e) = entries e"
  "state (notifyEntryChange e) = state e"
  "timeWindow (notifyEntryChange e) = timeWindow e"
  "abortController (notifyEntryChange e) = abortController e"
  by (simp_all add: notifyEntryChange_def emit_def split: option.splits)

function playLoop :: "speech \<Rightarrow> engine \<Rightarrow> outcome \<times> engine" where
  "playLoop tts e =
     (if isPlaying (state e) \<and> \<not> signalAborted e
         \<and> currentEntryIndex (state e) < length (entries e)
      then
        let entry = entries e ! currentEntryIndex (state e) in
        if reaches (cumulativeStartTime entry) (endTime (timeWindow e)) then (Finished, e)
        else
          case playEntry tts entry e of
            (Finished, e1) \<Rightarrow>
              if signalAborted e1 then (Finished, e1)
              else
                let nextIndex = currentEntryIndex (state e1) + 1 in
                if nextIndex \<ge> length (entries e1) then (Finished, e1)
                else if reaches (cumulativeStartTime (entries e1 ! nextIndex))
                          (endTime (timeWindow e1))
                then (Finished, e1)
                else playLoop tts
                       (notifyEntryChange
                          (e1\<lparr>state := (state e1)\<lparr>currentEntryIndex := nextIndex\<rparr>\<rparr>))
          | (r, e1) \<Rightarrow> (r, e1)
      else (Finished, e))"
  by pat_completeness auto
termination
proof (relation "measure (\<lambda>(tts, e). length (entries e) - currentEntryIndex (state e))",
    goal_cases)
  case 1
  show ?case by simp
next
  case (2 tts e entry r e1 nextIndex)
  from 2(4) have "entries e1 = entries e"
    and "currentEntryIndex (state e1) = currentEntryIndex (state e)"
    by (rule playEntry_keeps)+
  with 2 show ?case by simp
qed

text \<open>After the loop: \<^verbatim>\<open>if (!aborted) { this.stop(); this.callbacks.onComplete?.() }\<close>.\<close>

definition playFromCurrent :: "speech \<Rightarrow> engine \<Rightarrow> outcome \<times> engine" where
  "playFromCurrent tts e =
     andThen (playLoop tts e) (\<lambda>e1.
       if \<not> signalAborted e1 then (Finished, emit Complete (stop e1)) else (Finished, e1))"

text \<open>
  \<^verbatim>\<open>play()\<close>; \<open>ready\<close> tells whether \<^verbatim>\<open>waitForReady()\<close> resolves (the key is set).
  Whatever \<^verbatim>\<open>playFromCurrent\<close> throws is caught and logged.
\<close>

definition play :: "speech \<Rightarrow> bool \<Rightarrow> engine \<Rightarrow> outcome \<times> engine" where
  "play tts ready e =
     (if isPaused (state e) then (Finished, resume e)
      else if isPlaying (state e) then (Finished, e)
      else if entries e = [] then (Finished, e)
      else if \<not> ready then (Blocked, e)
      else
        let e1 = e\<lparr>state := (state e)\<lparr>isPlaying := True, isPaused := False\<rparr>,
                    abortController := Some False\<rparr>;
            e2 = notifyStateChange (startTimeTracking e1)
        in case playFromCurrent tts e2 of
             (Threw err, e3) \<Rightarrow> (Finished, e3)
           | r \<Rightarrow> r)"

subsection \<open>Reading a trace\<close>

fun phaseChanges :: "event list \<Rightarrow> PlaybackPhase list" where
  "phaseChanges [] = []"
| "phaseChanges (PhaseChange p # evs) = p # phaseChanges evs"
| "phaseChanges (_ # evs) = phaseChanges evs"

fun spoken :: "event list \<Rightarrow> (string \<times> lang) list" where
  "spoken [] = []"
| "spoken (TtsSpeak text lg rate # evs) = (text, lg) # spoken evs"
| "spoken (_ # evs) = spoken evs"

definition completions :: "event list \<Rightarrow> nat" where
  "completions evs = count_list evs Complete"

definition sixPhases :: "PlaybackPhase list" where
  "sixPhases = [English, PauseAfterEnglish, SpanishWord, PauseAfterSpanishWord,
                SpanishSentence, BetweenEntries]"

definition fragments :: "FlashcardEntry \<Rightarrow> (string \<times> lang) list" where
  "fragments entry =
     [(englishWord entry, En), (spanishWord entry, Es), (spanishSentence entry, Es)]"

text \<open>
  The entries a session goes through: from the current index on, up to the first entry
  whose start reaches the end of the window.
\<close>

definition traversed :: "engine \<Rightarrow> FlashcardEntry list" where
  "traversed e =
     takeWhile (\<lambda>entry. \<not> reaches (cumulativeStartTime entry) (endTime (timeWindow e)))
       (drop (currentEntryIndex (state e)) (entries e))"

subsection \<open>Example engines\<close>

definition entryAt :: "nat \<Rightarrow> real \<Rightarrow> real \<Rightarrow> FlashcardEntry" where
  "entryAt i start duration =
     \<lparr>entry_id = i, englishWord = ''action'', spanishWord = ''accion'',
      spanishSentence = ''La accion fue emocionante.'',
      estimatedDuration = duration, cumulativeStartTime = start\<rparr>"

definition offsetEntries :: "FlashcardEntry list" where
  "offsetEntries = [entryAt 1 0 5, entryAt 2 5 7, entryAt 3 12 6, entryAt 4 18 7, entryAt 5 25 5]"

definition offsetEngine :: "nat \<Rightarrow> engine" where
  "offsetEngine i =
     newEngine\<lparr>entries := offsetEntries,
               state := createInitialState\<lparr>currentEntryIndex := i\<rparr>\<rparr>"

definition window_10_20 :: TimeWindow where
  "window_10_20 = \<lparr>startTime = 10, endTime = Finite 20\<rparr>"

definition playingEngine :: engine where
  "playingEngine =
     newEngine\<lparr>entries := offsetEntries,
               state := \<lparr>isPlaying = True, isPaused = False, currentEntryIndex = 1,
                         currentPhase = SpanishWord, elapsedTime = 63 / 10, playbackRate = 1\<rparr>,
               abortController := Some False, timeUpdateInterval := True\<rparr>"

definition twoEntries :: "FlashcardEntry list" where
  "twoEntries =
     [\<lparr>entry_id = 1, englishWord = ''action'', spanishWord = ''accion'',
       spanishSentence = ''La accion fue emocionante.'',
       estimatedDuration = 57 / 10, cumulativeStartTime = 0\<rparr>,
      \<lparr>entry_id = 2, englishWord = ''house'', spanishWord = ''casa'',
       spanishSentence = ''Mi casa es tu casa.'',
       estimatedDuration = 6, cumulativeStartTime = 57 / 10\<rparr>]"

definition loadedEngine :: engine where
  "loadedEngine = setEntries twoEntries newEngine"

section \<open>Duration estimates and the vocabulary file parser\<close>

text \<open>
  A JavaScript string is modelled by the bytes of its UTF-8 encoding, one \<^typ>\<open>char\<close>
  per byte. The white space of \<^verbatim>\<open>trim()\<close> and of \<^verbatim>\<open>\s\<close> is then tab, line feed, vertical
  tab, form feed, carriage return and space, and \<^verbatim>\<open>.\<close> matches every character but line
  feed and carriage return; the white space and the line separators beyond ASCII (the
  no-break space, the byte order mark, U+2028 and the like) are taken not to occur in
  the text.
\<close>

definition isSpace :: "char \<Rightarrow> bool" where
  "isSpace c \<longleftrightarrow>
     c \<in> {CHR 0x09, CHR 0x0A, CHR 0x0B, CHR 0x0C, CHR 0x0D, CHR 0x20}"

definition isLineTerminator :: "char \<Rightarrow> bool" where
  "isLineTerminator c \<longleftrightarrow> c \<in> {CHR 0x0A, CHR 0x0D}"




subsection \<open>timeUtils\<close>




subsection \<open>The entry pattern\<close>

text \<open>
  \<^verbatim>\<open>ENTRY_REGEX = /^(.+?)\s*\|\s*(.+?)\s*-\s*(.+)$/\<close>. Every quantifier of the pattern
  is over a single character class, so the pattern is a list of pieces, each taking some
  number of characters of its class. A backtracking matcher tries the numbers a piece may
  take in the order of its preference (a lazy piece the fewest first, a greedy piece the
  most first) and, for each, the rest of the pattern on the rest of the string; the first
  way that reaches the end of the string is the match. The result lists the captured
  groups.
\<close>

datatype cclass = AnyChar | WhiteSpace | Literal char

fun inClass :: "cclass \<Rightarrow> char \<Rightarrow> bool" where
  "inClass AnyChar c = (\<not> isLineTerminator c)"
| "inClass WhiteSpace c = isSpace c"
| "inClass (Literal d) c = (c = d)"



definition run :: "cclass \<Rightarrow> string \<Rightarrow> nat" where
  "run c s = length (takeWhile (inClass c) s)"





subsection \<open>FileParser\<close>





definition getTotalDuration :: "FlashcardEntry list \<Rightarrow> real" where
  "getTotalDuration es =
     (if es = [] then 0
      else cumulativeStartTime (last es) + estimatedDuration (last es))"




section \<open>The audio cache of the speech handler\<close>

subsection \<open>SHA-256\<close>

text \<open>
  \<^verbatim>\<open>createHash('sha256')\<close> of Node's \<^verbatim>\<open>crypto\<close> module, which is not code of the
  repository: SHA-256 as FIPS 180-4 defines it, on the bytes of the message, with the
  digest in lower-case hexadecimal (\<^verbatim>\<open>digest('hex')\<close>). \<^verbatim>\<open>hash.update\<close> hashes the
  UTF-8 bytes of its string, and a string of the handler is modelled by these bytes.
\<close>

type_synonym w32 = "32 word"

text \<open>
  The round constants, four to a row (the fractional parts of the cube roots of the
  first 64 primes), and the initial hash value (of the square roots of the first 8).
\<close>

definition K256 :: "w32 list" where
  "K256 = concat
     [[0x428a2f98, 0x71374491, 0xb5c0fbcf, 0xe9b5dba5],
      [0x3956c25b, 0x59f111f1, 0x923f82a4, 0xab1c5ed5],
      [0xd807aa98, 0x12835b01, 0x243185be, 0x550c7dc3],
      [0x72be5d74, 0x80deb1fe, 0x9bdc06a7, 0xc19bf174],
      [0xe49b69c1, 0xefbe4786, 0x0fc19dc6, 0x240ca1cc],
      [0x2de92c6f, 0x4a7484aa, 0x5cb0a9dc, 0x76f988da],
      [0x983e5152, 0xa831c66d, 0xb00327c8, 0xbf597fc7],
      [0xc6e00bf3, 0xd5a79147, 0x06ca6351, 0x14292967],
      [0x27b70a85, 0x2e1b2138, 0x4d2c6dfc, 0x53380d13],
      [0x650a7354, 0x766a0abb, 0x81c2c92e, 0x92722c85],
      [0xa2bfe8a1, 0xa81a664b, 0xc24b8b70, 0xc76c51a3],
      [0xd192e819, 0xd6990624, 0xf40e3585, 0x106aa070],
      [0x19a4c116, 0x1e376c08, 0x2748774c, 0x34b0bcb5],
      [0x391c0cb3, 0x4ed8aa4a, 0x5b9cca4f, 0x682e6ff3],
      [0x748f82ee, 0x78a5636f, 0x84c87814, 0x8cc70208],
      [0x90befffa, 0xa4506ceb, 0xbef9a3f7, 0xc67178f2]]"

definition H256 :: "w32 list" where
  "H256 = [0x6a09e667, 0xbb67ae85, 0x3c6ef372, 0xa54ff53a] @
          [0x510e527f, 0x9b05688c, 0x1f83d9ab, 0x5be0cd19]"

definition Ch :: "w32 \<Rightarrow> w32 \<Rightarrow> w32 \<Rightarrow> w32" where
  "Ch x y z = (x AND y) XOR (NOT x AND z)"

definition Maj :: "w32 \<Rightarrow> w32 \<Rightarrow> w32 \<Rightarrow> w32" where
  "Maj x y z = (x AND y) XOR (x AND z) XOR (y AND z)"

definition Sigma0 :: "w32 \<Rightarrow> w32" where
  "Sigma0 x = word_rotr 2 x XOR word_rotr 13 x XOR word_rotr 22 x"

definition Sigma1 :: "w32 \<Rightarrow> w32" where
  "Sigma1 x = word_rotr 6 x XOR word_rotr 11 x XOR word_rotr 25 x"

definition sigma0 :: "w32 \<Rightarrow> w32" where
  "sigma0 x = word_rotr 7 x XOR word_rotr 18 x XOR drop_bit 3 x"

definition sigma1 :: "w32 \<Rightarrow> w32" where
  "sigma1 x = word_rotr 17 x XOR word_rotr 19 x XOR drop_bit 10 x"

text \<open>Padding: the bit 1, zeros up to 56 modulo 64 bytes, the bit length in 64 bits.\<close>

definition bigEndian :: "nat \<Rightarrow> nat \<Rightarrow> nat list" where
  "bigEndian n v = map (\<lambda>i. (v div 256 ^ (n - 1 - i)) mod 256) [0 ..< n]"

definition padMessage :: "nat list \<Rightarrow> nat list" where
  "padMessage bytes =
     bytes @ [128] @ replicate ((119 - length bytes mod 64) mod 64) 0
       @ bigEndian 8 (8 * length bytes)"

fun toWords :: "nat list \<Rightarrow> w32 list" where
  "toWords (a # b # c # d # rest) =
     word_of_nat (((a * 256 + b) * 256 + c) * 256 + d) # toWords rest"
| "toWords _ = []"

fun blocks :: "nat \<Rightarrow> 'a list \<Rightarrow> 'a list list" where
  "blocks n [] = []"
| "blocks n (x # xs) =
     (if n = 0 then [] else take n (x # xs) # blocks n (drop n (x # xs)))"

text \<open>The message schedule: 48 more words after the 16 of the block.\<close>

primrec extend :: "nat \<Rightarrow> w32 list \<Rightarrow> w32 list" where
  "extend 0 w = w"
| "extend (Suc n) w =
     extend n
       (w @ [sigma1 (w ! (length w - 2)) + w ! (length w - 7)
             + sigma0 (w ! (length w - 15)) + w ! (length w - 16)])"

type_synonym vars = "w32 \<times> w32 \<times> w32 \<times> w32 \<times> w32 \<times> w32 \<times> w32 \<times> w32"

fun round256 :: "vars \<Rightarrow> w32 \<times> w32 \<Rightarrow> vars" where
  "round256 (a, b, c, d, e, f, g, h) (k, w) =
     (let T1 = h + Sigma1 e + Ch e f g + k + w;
          T2 = Sigma0 a + Maj a b c
      in (T1 + T2, a, b, c, d + T1, e, f, g))"

fun compress :: "w32 list \<Rightarrow> w32 list \<Rightarrow> w32 list" where
  "compress [a, b, c, d, e, f, g, h] block =
     (case foldl round256 (a, b, c, d, e, f, g, h) (zip K256 (extend 48 block)) of
        (a', b', c', d', e', f', g', h') \<Rightarrow>
          [a + a', b + b', c + c', d + d', e + e', f + f', g + g', h + h'])"
| "compress hs block = hs"

definition sha256 :: "nat list \<Rightarrow> w32 list" where
  "sha256 bytes = foldl compress H256 (blocks 16 (toWords (padMessage bytes)))"

definition hexDigit :: "nat \<Rightarrow> char" where
  "hexDigit n = ''0123456789abcdef'' ! (n mod 16)"

definition hexWord :: "w32 \<Rightarrow> string" where
  "hexWord w = map (\<lambda>i. hexDigit (unat w div 16 ^ (7 - i))) [0 ..< 8]"

definition sha256_hex :: "string \<Rightarrow> string" where
  "sha256_hex s = concat (map hexWord (sha256 (map of_char s)))"

subsection \<open>The cache key\<close>

text \<open>
  \<^verbatim>\<open>hash.update(`${text}|${voiceId}|${languageCode}`)\<close>: the three fields joined by a
  bar, with nothing that tells a bar of the template from a bar inside a field.
\<close>

definition cacheKeyMessage :: "string \<Rightarrow> string \<Rightarrow> string \<Rightarrow> string" where
  "cacheKeyMessage txt voice code = txt @ ''|'' @ voice @ ''|'' @ code"

definition generateCacheKey :: "string \<Rightarrow> string \<Rightarrow> string \<Rightarrow> string" where
  "generateCacheKey txt voice code = sha256_hex (cacheKeyMessage txt voice code)"

subsection \<open>The handler's state and its files\<close>

text \<open>
  The module variables of the handler and the part of the file system it works on.
  \<open>client\<close> tells whether the ElevenLabs client is set (\<^verbatim>\<open>client !== null\<close>).
  \<open>cacheDir\<close> is \<open>None\<close> while the directory \<^verbatim>\<open>.tts-cache\<close> does not exist;
  otherwise it lists the files in it, name and content, in the order \<^verbatim>\<open>readdirSync\<close>
  gives them, but for \<^verbatim>\<open>cache-index.json\<close>, whose content is \<open>indexFile\<close>. The bytes of
  a file are a \<^typ>\<open>string\<close>. \<open>gatewayCalls\<close> records each call of
  \<^verbatim>\<open>client.textToSpeech.convert\<close>, with the voice and the text it was made for.
  The field \<^verbatim>\<open>text\<close> of a cache entry is \<open>text'\<close> here, and the record
  \<^verbatim>\<open>entries\<close> of the index, from key to entry in the order of insertion, is
  \<open>indexEntries\<close>. \<^verbatim>\<open>mkdirSync\<close> and \<^verbatim>\<open>readFileSync\<close> are taken to succeed.
\<close>

record CacheEntry =
  text' :: string
  voiceId :: string
  languageCode :: string
  timestamp :: nat
  fileSize :: nat
  lastAccessed :: nat

record CacheIndex =
  version :: string
  indexEntries :: "(string \<times> CacheEntry) list"

record handler =
  client :: bool
  cacheIndex :: CacheIndex
  cacheDir :: "(string \<times> string) list option"
  indexFile :: "CacheIndex option"
  gatewayCalls :: "(string \<times> string) list"

text \<open>
  What the handler cannot decide: for a path, the error with which writing to it or
  unlinking it fails, if it fails.
\<close>

record io =
  writeError :: "string \<Rightarrow> string option"
  unlinkError :: "string \<Rightarrow> string option"

datatype 'a result = Returns 'a | Throws string

definition emptyIndex :: CacheIndex where
  "emptyIndex = \<lparr>version = ''1.0'', indexEntries = []\<rparr>"

definition VOICE_spanish :: string where "VOICE_spanish = ''jtfxplhZxnBzQICVwoQn''"
definition VOICE_english :: string where "VOICE_english = ''EXAVITQu4vr4xnSDxMaL''"

definition files :: "handler \<Rightarrow> (string \<times> string) list" where
  "files h = (case cacheDir h of None \<Rightarrow> [] | Some fs \<Rightarrow> fs)"

definition existsSync :: "handler \<Rightarrow> string \<Rightarrow> bool" where
  "existsSync h name \<longleftrightarrow> map_of (files h) name \<noteq> None"

definition ensureCacheDir :: "handler \<Rightarrow> handler" where
  "ensureCacheDir h = (case cacheDir h of None \<Rightarrow> h\<lparr>cacheDir := Some []\<rparr> | Some fs \<Rightarrow> h)"

text \<open>\<^verbatim>\<open>saveCacheIndex\<close> catches and logs what \<^verbatim>\<open>writeFileSync\<close> throws.\<close>

definition saveCacheIndex :: "io \<Rightarrow> handler \<Rightarrow> handler" where
  "saveCacheIndex env h =
     (if cacheDir h \<noteq> None \<and> writeError env ''cache-index.json'' = None
      then h\<lparr>indexFile := Some (cacheIndex h)\<rparr> else h)"

subsection \<open>synthesizeSpeech\<close>

text \<open>
  The answer of the gateway to one call: \<^verbatim>\<open>convert\<close> rejects, or it gives a stream
  that throws after some chunks, or a stream that ends.
\<close>

datatype response =
  ConvertRejects string | StreamThrows "string list" string | StreamEnds "string list"

record request =
  requestText :: string
  selectedVoiceId :: string
  requestLanguageCode :: string
  cacheKey :: string

text \<open>
  \<^verbatim>\<open>synthesizeSpeech\<close> is an \<^verbatim>\<open>async\<close> function with one point where it gives up
  control: \<^verbatim>\<open>await client.textToSpeech.convert(...)\<close> and the reading of the stream.
  \<open>synthesizeStart\<close> is the function up to that point, where it has either thrown, or
  returned the cached audio, or called the gateway; \<open>synthesizeFinish\<close> is the rest,
  run when the gateway has answered. Between the two, other calls may run. The returned
  data URL is modelled by the audio bytes it carries.
\<close>

datatype started = Rejected string | Hit string | Miss request

definition selectVoice :: "lang \<Rightarrow> string option \<Rightarrow> string" where
  "selectVoice language voice =
     (case voice of
        Some v \<Rightarrow> if v \<noteq> [] then v
                  else if language = Es then VOICE_spanish else VOICE_english
      | None \<Rightarrow> if language = Es then VOICE_spanish else VOICE_english)"

definition localeOf :: "lang \<Rightarrow> string" where
  "localeOf language = (if language = Es then ''es-ES'' else ''en-US'')"

definition touch :: "nat \<Rightarrow> string \<Rightarrow> CacheIndex \<Rightarrow> CacheIndex" where
  "touch now key idx =
     idx\<lparr>indexEntries :=
           map (\<lambda>(k, entry). if k = key then (k, entry\<lparr>lastAccessed := now\<rparr>) else (k, entry))
             (indexEntries idx)\<rparr>"

definition synthesizeStart ::
  "io \<Rightarrow> nat \<Rightarrow> handler \<Rightarrow> string \<Rightarrow> lang \<Rightarrow> string option \<Rightarrow> started \<times> handler" where
  "synthesizeStart env now h txt language voice =
     (if \<not> client h then (Rejected ''ElevenLabs API key not configured'', h)
      else
        let h1 = ensureCacheDir h;
            selected = selectVoice language voice;
            code = localeOf language;
            key = generateCacheKey txt selected code;
            cachePath = key @ ''.mp3''
        in case map_of (files h1) cachePath of
             Some audioBuffer \<Rightarrow>
               (Hit audioBuffer,
                if map_of (indexEntries (cacheIndex h1)) key \<noteq> None
                then saveCacheIndex env (h1\<lparr>cacheIndex := touch now key (cacheIndex h1)\<rparr>)
                else h1)
           | None \<Rightarrow>
               (Miss \<lparr>requestText = txt, selectedVoiceId = selected,
                      requestLanguageCode = code, cacheKey = key\<rparr>,
                h1\<lparr>gatewayCalls := gatewayCalls h1 @ [(selected, txt)]\<rparr>))"

definition writeFile :: "string \<Rightarrow> string \<Rightarrow> handler \<Rightarrow> handler" where
  "writeFile name content h = h\<lparr>cacheDir := Some (AList.update name content (files h))\<rparr>"

definition synthesizeFinish ::
  "io \<Rightarrow> nat \<Rightarrow> nat \<Rightarrow> handler \<Rightarrow> request \<Rightarrow> response \<Rightarrow> string result \<times> handler" where
  "synthesizeFinish env stamp accessed h req answer =
     (case answer of
        ConvertRejects msg \<Rightarrow> (Throws msg, h)
      | StreamThrows chunks msg \<Rightarrow> (Throws msg, h)
      | StreamEnds chunks \<Rightarrow>
          let audioBuffer = concat chunks;
              cachePath = cacheKey req @ ''.mp3''
          in case writeError env cachePath of
               Some msg \<Rightarrow> (Throws msg, h)
             | None \<Rightarrow>
                 let h1 = writeFile cachePath audioBuffer h;
                     entry = \<lparr>text' = requestText req, voiceId = selectedVoiceId req,
                              languageCode = requestLanguageCode req, timestamp = stamp,
                              fileSize = length audioBuffer, lastAccessed = accessed\<rparr>;
                     h2 = h1\<lparr>cacheIndex := (cacheIndex h1)
                             \<lparr>indexEntries :=
                                AList.update (cacheKey req) entry (indexEntries (cacheIndex h1))\<rparr>\<rparr>
                 in (Returns audioBuffer, saveCacheIndex env h2))"

text \<open>
  One call from its start to its end with no other call in between; \<open>gateway\<close> gives
  the answer of the service for a voice and a text.
\<close>

definition synthesizeSpeech ::
  "io \<Rightarrow> nat \<Rightarrow> nat \<Rightarrow> nat \<Rightarrow> (string \<Rightarrow> string \<Rightarrow> response) \<Rightarrow> handler \<Rightarrow> string \<Rightarrow> lang
     \<Rightarrow> string option \<Rightarrow> string result \<times> handler" where
  "synthesizeSpeech env now stamp accessed gateway h txt language voice =
     (case synthesizeStart env now h txt language voice of
        (Rejected msg, h1) \<Rightarrow> (Throws msg, h1)
      | (Hit audio, h1) \<Rightarrow> (Returns audio, h1)
      | (Miss req, h1) \<Rightarrow>
          synthesizeFinish env stamp accessed h1 req
            (gateway (selectedVoiceId req) (requestText req)))"

subsection \<open>Statistics and clearing\<close>

text \<open>
  \<^verbatim>\<open>getCacheStats\<close>, with \<^verbatim>\<open>totalSizeMB\<close> before \<^verbatim>\<open>toFixed(2)\<close> and the two dates as time
  stamps, before \<^verbatim>\<open>toISOString()\<close>.
\<close>

record CacheStats =
  totalFiles :: nat
  totalSize :: nat
  totalSizeMB :: real
  oldestEntry :: "nat option"
  newestEntry :: "nat option"

definition getCacheStats :: "nat \<Rightarrow> handler \<Rightarrow> CacheStats" where
  "getCacheStats now h =
     (let es = map snd (indexEntries (cacheIndex h));
          total = foldl (\<lambda>sum entry. sum + fileSize entry) 0 es
      in if length es = 0
         then \<lparr>totalFiles = 0, totalSize = 0, totalSizeMB = 0,
               oldestEntry = None, newestEntry = None\<rparr>
         else \<lparr>totalFiles = length es, totalSize = total,
               totalSizeMB = real total / 1024 / 1024,
               oldestEntry =
                 Some (foldl (\<lambda>m entry. if timestamp entry < m then timestamp entry else m) now es),
               newestEntry =
                 Some (foldl (\<lambda>m entry. if timestamp entry > m then timestamp entry else m) 0 es)\<rparr>)"

definition endsWith :: "string \<Rightarrow> string \<Rightarrow> bool" where
  "endsWith suffix s \<longleftrightarrow>
     length suffix \<le> length s \<and> drop (length s - length suffix) s = suffix"

text \<open>
  \<^verbatim>\<open>files.forEach(f => unlinkSync(join(CACHE_DIR, f)))\<close>: the first unlink that throws
  ends the loop, and the call, with the files before it gone.
\<close>

fun unlinkEach ::
  "io \<Rightarrow> string list \<Rightarrow> (string \<times> string) list \<Rightarrow> string option \<times> (string \<times> string) list" where
  "unlinkEach env [] dir = (None, dir)"
| "unlinkEach env (f # fs) dir =
     (case unlinkError env f of
        Some msg \<Rightarrow> (Some msg, dir)
      | None \<Rightarrow> unlinkEach env fs (AList.delete f dir))"

definition clearCache :: "io \<Rightarrow> handler \<Rightarrow> nat result \<times> handler" where
  "clearCache env h =
     (let h1 = ensureCacheDir h;
          mp3s = filter (endsWith ''.mp3'') (map fst (files h1))
      in case unlinkEach env mp3s (files h1) of
           (Some msg, dir) \<Rightarrow> (Throws msg, h1\<lparr>cacheDir := Some dir\<rparr>)
         | (None, dir) \<Rightarrow>
             (Returns (length mp3s),
              saveCacheIndex env (h1\<lparr>cacheDir := Some dir, cacheIndex := emptyIndex\<rparr>)))"

subsection \<open>Example states of the handler\<close>

definition friendly :: io where
  "friendly = \<lparr>writeError = (\<lambda>path. None), unlinkError = (\<lambda>path. None)\<rparr>"

definition freshHandler :: handler where
  "freshHandler =
     \<lparr>client = True, cacheIndex = emptyIndex, cacheDir = Some [], indexFile = None,
      gatewayCalls = []\<rparr>"

definition holaRequest :: request where
  "holaRequest =
     \<lparr>requestText = ''hola'', selectedVoiceId = VOICE_spanish, requestLanguageCode = ''es-ES'',
      cacheKey = generateCacheKey ''hola'' VOICE_spanish ''es-ES''\<rparr>"

definition someEntry :: "string \<Rightarrow> nat \<Rightarrow> CacheEntry" where
  "someEntry txt bytes =
     \<lparr>text' = txt, voiceId = VOICE_spanish, languageCode = ''es-ES'', timestamp = 1000,
      fileSize = bytes, lastAccessed = 1000\<rparr>"

text \<open>Two cached blobs and the read-me file of the cache directory.\<close>

definition filledHandler :: handler where
  "filledHandler =
     \<lparr>client = True,
      cacheIndex = \<lparr>version = ''1.0'',
                    indexEntries = [(''aa'', someEntry ''hola'' 3), (''bb'', someEntry ''casa'' 4)]\<rparr>,
      cacheDir = Some [(''README.md'', ''cache''), (''aa.mp3'', ''abc''), (''bb.mp3'', ''defg'')],
      indexFile = Some \<lparr>version = ''1.0'',
                    indexEntries = [(''aa'', someEntry ''hola'' 3), (''bb'', someEntry ''casa'' 4)]\<rparr>,
      gatewayCalls = []\<rparr>"

definition stubborn :: io where
  "stubborn =
     \<lparr>writeError = (\<lambda>path. None),
      unlinkError = (\<lambda>path. if path = ''bb.mp3'' then Some ''EPERM'' else None)\<rparr>"

text \<open>The message with which a call of the gateway fails, if it fails.\<close>

definition failed :: "response \<Rightarrow> string option" where
  "failed answer =
     (case answer of
        ConvertRejects msg \<Rightarrow> Some msg
      | StreamThrows chunks msg \<Rightarrow> Some msg
      | StreamEnds chunks \<Rightarrow> None)"

definition unreachable :: "string \<Rightarrow> string \<Rightarrow> response" where
  "unreachable voice txt = ConvertRejects ''connect ECONNREFUSED''"


section \<open>The audio exporter\<close>

text \<open>
  The files the exporter names, by what their names are made of:
  \<^verbatim>\<open>silence-<seconds>s.mp3\<close> with the seconds as \<^verbatim>\<open>toFixed(2)\<close> prints them (here the number
  of hundredths), \<^verbatim>\<open>temp-en-<i>.mp3\<close>, \<^verbatim>\<open>temp-es-word-<i>.mp3\<close> and
  \<^verbatim>\<open>temp-es-sentence-<i>.mp3\<close> in the temporary directory, \<^verbatim>\<open><key>.mp3\<close> in the cache
  directory, and \<^verbatim>\<open><baseName>-export-<timestamp>.mp3\<close> in the output directory.
\<close>

datatype path =
  SilencePath int
  | TempEn nat
  | TempEsWord nat
  | TempEsSentence nat
  | CachePath string
  | OutputPath string string

datatype label = PreparingSilence | GeneratingTTS nat nat | Assembling | Saving | Completed

datatype ExportResult = Success path | Failure string

datatype joining = Joined | JoinFails string bool

text \<open>
  What the exporter works on: the state of the speech handler with its cache, the files
  in the temporary directory, the files in the output directory, and the calls of
  \<^verbatim>\<open>onProgress\<close> so far. The two directories exist or can be made. The exporter
  imports \<^verbatim>\<open>synthesizeSpeech\<close> from the speech handler and reads the handler's cache
  directory itself.
\<close>

record workspace =
  handlerState :: handler
  tempDir :: "path list"
  outputDir :: "path list"
  reported :: "(label \<times> nat) list"

text \<open>
  What the exporter cannot decide: the answers of the gateway, the clock, the failures
  of the file system, whether ffmpeg renders a silence of some length, and how the
  concatenation ends (\<open>JoinFails msg partial\<close>: it fails with \<open>msg\<close>, and \<open>partial\<close>
  tells whether ffmpeg leaves an output file behind).
\<close>

record studio =
  studioGateway :: "string \<Rightarrow> string \<Rightarrow> response"
  studioClock :: nat
  cacheIo :: io
  silenceError :: "real \<Rightarrow> string option"
  concatenation :: joining
  tempWriteError :: "path \<Rightarrow> string option"
  tempUnlinkError :: "path \<Rightarrow> string option"

text \<open>A file written into a directory: it is there once, whether it was there or not.\<close>

definition addFile :: "path \<Rightarrow> path list \<Rightarrow> path list" where
  "addFile p ps = (if p \<in> set ps then ps else ps @ [p])"

definition onProgress :: "label \<Rightarrow> nat \<Rightarrow> workspace \<Rightarrow> workspace" where
  "onProgress phase percent w = w\<lparr>reported := reported w @ [(phase, percent)]\<rparr>"

text \<open>\<^verbatim>\<open>x.toFixed(2)\<close> for a positive \<open>x\<close>, as the number of hundredths.\<close>

definition toFixed2 :: "real \<Rightarrow> int" where
  "toFixed2 x = \<lfloor>x * 100 + 1 / 2\<rfloor>"

definition getCachedAudioPath :: "handler \<Rightarrow> string \<Rightarrow> lang \<Rightarrow> path option" where
  "getCachedAudioPath h txt language =
     (let voice = (if language = Es then ''jtfxplhZxnBzQICVwoQn'' else ''EXAVITQu4vr4xnSDxMaL'');
          code = (if language = Es then ''es-ES'' else ''en-US'');
          key = generateCacheKey txt voice code
      in if existsSync h (key @ ''.mp3'') then Some (CachePath key) else None)"

text \<open>
  \<^verbatim>\<open>generateSilence\<close>: the intermediate WAV file is removed on success and on error
  alike; what stays is the MP3 file, when ffmpeg succeeds.
\<close>

definition generateSilence :: "studio \<Rightarrow> real \<Rightarrow> path \<Rightarrow> workspace \<Rightarrow> string option \<times> workspace" where
  "generateSilence env duration p w =
     (case silenceError env duration of
        Some msg \<Rightarrow> (Some msg, w)
      | None \<Rightarrow> (None, w\<lparr>tempDir := addFile p (tempDir w)\<rparr>))"

text \<open>
  One fragment of an entry: the cached file if there is one, else the synthesized audio
  written to a temporary file, which is then pushed on \<^verbatim>\<open>tempFiles\<close>. The result is
  the error thrown, or the path and whether it is a temporary file.
\<close>

definition fragment ::
  "studio \<Rightarrow> string \<Rightarrow> lang \<Rightarrow> path \<Rightarrow> workspace \<Rightarrow> (string + path \<times> bool) \<times> workspace" where
  "fragment env txt language tempPath w =
     (case getCachedAudioPath (handlerState w) txt language of
        Some p \<Rightarrow> (Inr (p, False), w)
      | None \<Rightarrow>
          (case synthesizeSpeech (cacheIo env) (studioClock env) (studioClock env) (studioClock env) (studioGateway env)
                  (handlerState w) txt language None of
             (Throws msg, h) \<Rightarrow> (Inl msg, w\<lparr>handlerState := h\<rparr>)
           | (Returns dataUrl, h) \<Rightarrow>
               (case tempWriteError env tempPath of
                  Some msg \<Rightarrow> (Inl msg, w\<lparr>handlerState := h\<rparr>)
                | None \<Rightarrow>
                    (Inr (tempPath, True),
                     w\<lparr>handlerState := h, tempDir := addFile tempPath (tempDir w)\<rparr>))))"

text \<open>
  The loop over the entries with its variables \<open>i\<close>, \<^verbatim>\<open>audioPaths\<close> and \<^verbatim>\<open>tempFiles\<close>;
  \<open>silences\<close> are the three silence paths. An error ends the loop.
\<close>

fun exportEntries ::
  "studio \<Rightarrow> nat \<Rightarrow> path \<times> path \<times> path \<Rightarrow> nat \<Rightarrow> FlashcardEntry list \<Rightarrow> path list \<Rightarrow> path list
     \<Rightarrow> workspace \<Rightarrow> (string + path list \<times> path list) \<times> workspace" where
  "exportEntries env totalCards silences i [] audioPaths tempFiles w =
     (Inr (audioPaths, tempFiles), w)"
| "exportEntries env totalCards (silence1, silence2, silence3) i (entry # rest) audioPaths tempFiles w =
     (let w0 = onProgress (GeneratingTTS (i + 1) totalCards) ((i * 70) div totalCards) w in
      case fragment env (englishWord entry) En (TempEn i) w0 of
        (Inl msg, w1) \<Rightarrow> (Inl msg, w1)
      | (Inr (englishPath, t1), w1) \<Rightarrow>
     (let tempFiles1 = (if t1 then tempFiles @ [englishPath] else tempFiles);
          audioPaths1 = audioPaths @ [englishPath, silence1] in
      case fragment env (spanishWord entry) Es (TempEsWord i) w1 of
        (Inl msg, w2) \<Rightarrow> (Inl msg, w2)
      | (Inr (spanishWordPath, t2), w2) \<Rightarrow>
     (let tempFiles2 = (if t2 then tempFiles1 @ [spanishWordPath] else tempFiles1);
          audioPaths2 = audioPaths1 @ [spanishWordPath, silence2] in
      case fragment env (spanishSentence entry) Es (TempEsSentence i) w2 of
        (Inl msg, w3) \<Rightarrow> (Inl msg, w3)
      | (Inr (spanishSentencePath, t3), w3) \<Rightarrow>
     (let tempFiles3 = (if t3 then tempFiles2 @ [spanishSentencePath] else tempFiles2);
          audioPaths3 = audioPaths2 @ [spanishSentencePath, silence3] in
      exportEntries env totalCards (silence1, silence2, silence3) (i + 1) rest
        audioPaths3 tempFiles3 w3))))"

text \<open>
  \<^verbatim>\<open>try { if (existsSync(path)) unlinkSync(path) } catch (error) { console.error(...) }\<close>
  for each path of a list.
\<close>

fun cleanup :: "studio \<Rightarrow> path list \<Rightarrow> workspace \<Rightarrow> workspace" where
  "cleanup env [] w = w"
| "cleanup env (p # ps) w =
     cleanup env ps
       (if p \<in> set (tempDir w) \<and> tempUnlinkError env p = None
        then w\<lparr>tempDir := removeAll p (tempDir w)\<rparr> else w)"

text \<open>\<^verbatim>\<open>filename.replace(/\.[^/.]+$/, '')\<close>: the name without its last extension.\<close>

definition baseName :: "string \<Rightarrow> string" where
  "baseName filename =
     (let ext = rev (takeWhile (\<lambda>c. c \<noteq> CHR ''.'' \<and> c \<noteq> CHR ''/'') (rev filename)) in
      if ext \<noteq> [] \<and> length ext < length filename
         \<and> filename ! (length filename - length ext - 1) = CHR ''.''
      then take (length filename - length ext - 1) filename
      else filename)"

text \<open>
  \<^verbatim>\<open>exportAudioFile\<close>; \<open>stamp\<close> is the time stamp that goes into the name of the output
  file. The whole body is inside \<^verbatim>\<open>try\<close>; the \<^verbatim>\<open>catch\<close> block returns the failure and
  does nothing else.
\<close>

definition exportAudioFile ::
  "studio \<Rightarrow> string \<Rightarrow> workspace \<Rightarrow> FlashcardEntry list \<Rightarrow> string \<Rightarrow> real
     \<Rightarrow> ExportResult \<times> workspace" where
  "exportAudioFile env stamp w es filename speed =
     (let outputPath = OutputPath (baseName filename) stamp;
          pause1 = (15 / 10) / speed;
          pause2 = (8 / 10) / speed;
          pause3 = 1 / speed;
          w0 = onProgress PreparingSilence 0 w;
          silence1Path = SilencePath (toFixed2 pause1);
          silence2Path = SilencePath (toFixed2 pause2);
          silence3Path = SilencePath (toFixed2 pause3)
      in case generateSilence env pause1 silence1Path w0 of
           (Some msg, w1) \<Rightarrow> (Failure msg, w1)
         | (None, w1) \<Rightarrow>
      case generateSilence env pause2 silence2Path w1 of
           (Some msg, w2) \<Rightarrow> (Failure msg, w2)
         | (None, w2) \<Rightarrow>
      case generateSilence env pause3 silence3Path w2 of
           (Some msg, w3) \<Rightarrow> (Failure msg, w3)
         | (None, w3) \<Rightarrow>
      case exportEntries env (length es) (silence1Path, silence2Path, silence3Path) 0 es [] [] w3 of
           (Inl msg, w4) \<Rightarrow> (Failure msg, w4)
         | (Inr (audioPaths, tempFiles), w4) \<Rightarrow>
      (let w5 = onProgress Assembling 75 w4 in
       case concatenation env of
         JoinFails msg partial \<Rightarrow>
           (Failure msg,
            if partial then w5\<lparr>outputDir := addFile outputPath (outputDir w5)\<rparr> else w5)
       | Joined \<Rightarrow>
           (let w6 = onProgress Saving 95 (w5\<lparr>outputDir := addFile outputPath (outputDir w5)\<rparr>);
                w7 = cleanup env tempFiles w6;
                w8 = cleanup env [silence1Path, silence2Path, silence3Path] w7
            in (Success outputPath, onProgress Completed 100 w8))))"

subsection \<open>An export that fails\<close>

definition emptyWorkspace :: workspace where
  "emptyWorkspace = \<lparr>handlerState = freshHandler, tempDir = [], outputDir = [], reported = []\<rparr>"

text \<open>A studio in which everything works but the gateway, which cannot be reached.\<close>

definition offline :: studio where
  "offline =
     \<lparr>studioGateway = unreachable, studioClock = 1000, cacheIo = friendly,
      silenceError = (\<lambda>duration. None), concatenation = Joined,
      tempWriteError = (\<lambda>p. None), tempUnlinkError = (\<lambda>p. None)\<rparr>"

text \<open>A studio in which everything works but the concatenation.\<close>

definition jammed :: studio where
  "jammed =
     \<lparr>studioGateway = (\<lambda>voice txt. StreamEnds [''ID3'', txt]), studioClock = 1000, cacheIo = friendly,
      silenceError = (\<lambda>duration. None), concatenation = JoinFails ''ffmpeg exited with code 1'' True,
      tempWriteError = (\<lambda>p. None), tempUnlinkError = (\<lambda>p. None)\<rparr>"

section \<open>A pause phase on the time line\<close>

text \<open>
  \<^verbatim>\<open>delayWithAbort(ms)\<close> sets one timer of \<open>ms\<close> milliseconds and, when it has fired,
  runs \<^verbatim>\<open>waitWhilePaused\<close>, which looks at \<^verbatim>\<open>isPaused\<close> and sleeps 100 milliseconds as
  long as it is set. \<^verbatim>\<open>pause()\<close> sets \<^verbatim>\<open>isPaused\<close> and pauses the audio element;
  it does not touch the timer. Time is counted in milliseconds from the start of the
  phase, timers fire at their deadline, and \<open>paused t\<close> tells whether \<^verbatim>\<open>isPaused\<close> is
  set at time \<open>t\<close>. The result is the time at which the phase ends, \<open>None\<close> if the
  engine stays paused for ever.
\<close>

partial_function (option) pollWhilePaused :: "(real \<Rightarrow> bool) \<Rightarrow> real \<Rightarrow> real option" where
  "pollWhilePaused paused t =
     (if paused t then pollWhilePaused paused (t + 100) else Some t)"

definition delayEnd :: "(real \<Rightarrow> bool) \<Rightarrow> real \<Rightarrow> real option" where
  "delayEnd paused ms = pollWhilePaused paused ms"

text \<open>\<^verbatim>\<open>pause()\<close> at time \<open>a\<close> and \<^verbatim>\<open>resume()\<close> at time \<open>b\<close>.\<close>

definition pausedBetween :: "real \<Rightarrow> real \<Rightarrow> real \<Rightarrow> bool" where
  "pausedBetween a b t \<longleftrightarrow> a \<le> t \<and> t < b"

text \<open>The part of the time from 0 to \<open>t\<close> during which the engine was not paused.\<close>

definition playingTime :: "real \<Rightarrow> real \<Rightarrow> real \<Rightarrow> real" where
  "playingTime a b t = t - max 0 (min b t - max a 0)"

section \<open>Properties of the playback engine\<close>

subsection \<open>stop\<close>

text \<open>
  C5 (as the code has it): \<^verbatim>\<open>stop()\<close> from any state makes the engine idle: it sets
  \<^verbatim>\<open>isPlaying\<close> and \<^verbatim>\<open>isPaused\<close> to false and the phase to idle, drops the abort
  controller and the interval timer, and changes no other field of the playback state:
  \<^verbatim>\<open>currentEntryIndex\<close>, \<^verbatim>\<open>playbackRate\<close> and also \<^verbatim>\<open>elapsedTime\<close> keep their values.
  The entries and the time window stay as they are.
\<close>

theorem stop_resets_flags_and_phase_only:
  "state (stop e) = (state e)\<lparr>isPlaying := False, isPaused := False, currentPhase := Idle\<rparr>
   \<and> currentEntryIndex (state (stop e)) = currentEntryIndex (state e)
   \<and> elapsedTime (state (stop e)) = elapsedTime (state e)
   \<and> playbackRate (state (stop e)) = playbackRate (state e)
   \<and> entries (stop e) = entries e \<and> timeWindow (stop e) = timeWindow e
   \<and> abortController (stop e) = None \<and> \<not> timeUpdateInterval (stop e)"
  by (simp add: stop_def Let_def notifyStateChange_def emit_def stopTimeTracking_def)

text \<open>
  C5 as stated asks \<^verbatim>\<open>stop()\<close> to reset the elapsed-time counter. An engine that has
  been playing for 6.3 seconds still shows 6.3 seconds after \<^verbatim>\<open>stop()\<close>.
\<close>

theorem stop_elapsedTime_counterexample:
  "elapsedTime (state playingEngine) = 63 / 10
   \<and> elapsedTime (state (stop playingEngine)) = 63 / 10
   \<and> elapsedTime (state (stop playingEngine)) \<noteq> 0"
  by (simp add: stop_def Let_def notifyStateChange_def emit_def stopTimeTracking_def
      playingEngine_def newEngine_def)

subsection \<open>setTimeWindow\<close>

lemma findIndex_Some:
  "findIndex p xs = Some i \<longleftrightarrow> i < length xs \<and> p (xs ! i) \<and> (\<forall>j<i. \<not> p (xs ! j))"
proof (induction xs arbitrary: i)
  case Nil
  then show ?case by simp
next
  case (Cons x xs)
  show ?case
  proof (cases "p x")
    case True
    then show ?thesis by (cases i) auto
  next
    case False
    then show ?thesis
      by (cases i) (auto simp: Cons.IH less_Suc_eq_0_disj)
  qed
qed

lemma findIndex_None: "findIndex p xs = None \<longleftrightarrow> (\<forall>x\<in>set xs. \<not> p x)"
  by (induction xs) auto

lemma setTimeWindow_index:
  "currentEntryIndex (state (setTimeWindow w e)) =
     (case findIndex (inWindow w) (entries e) of
        None \<Rightarrow> currentEntryIndex (state e)
      | Some i \<Rightarrow> if isPlaying (state e) then currentEntryIndex (state e) else i)"
  by (simp add: setTimeWindow_def Let_def notifyEntryChange_def getCurrentEntry_def emit_def
      split: option.splits)

lemma setTimeWindow_window: "timeWindow (setTimeWindow w e) = w"
  by (simp add: setTimeWindow_def Let_def notifyEntryChange_def getCurrentEntry_def emit_def
      split: option.splits)

text \<open>
  C7 (as the code has it): \<^verbatim>\<open>setTimeWindow\<close> stores the window. When nothing is playing
  and some entry starts inside \<open>[startTime, endTime)\<close>, it moves \<^verbatim>\<open>currentEntryIndex\<close>
  to the first such entry, whether or not the current entry was inside the window
  already. When the engine is playing, or no entry starts inside the window, the index
  stays where it is.
\<close>

theorem setTimeWindow_snaps_to_first_inside:
  "timeWindow (setTimeWindow w e) = w
   \<and> (\<not> isPlaying (state e) \<and> (\<exists>entry \<in> set (entries e). inWindow w entry) \<longrightarrow>
        currentEntryIndex (state (setTimeWindow w e)) < length (entries e)
        \<and> inWindow w (entries e ! currentEntryIndex (state (setTimeWindow w e)))
        \<and> (\<forall>j < currentEntryIndex (state (setTimeWindow w e)). \<not> inWindow w (entries e ! j)))
   \<and> (isPlaying (state e) \<or> (\<forall>entry \<in> set (entries e). \<not> inWindow w entry) \<longrightarrow>
        currentEntryIndex (state (setTimeWindow w e)) = currentEntryIndex (state e))"
proof (cases "findIndex (inWindow w) (entries e)")
  case None
  then have "\<forall>entry \<in> set (entries e). \<not> inWindow w entry"
    by (simp add: findIndex_None)
  with None show ?thesis
    by (simp add: setTimeWindow_index setTimeWindow_window)
next
  case (Some i)
  then have i: "i < length (entries e)" "inWindow w (entries e ! i)"
    "\<forall>j<i. \<not> inWindow w (entries e ! j)"
    by (simp_all add: findIndex_Some)
  then have "\<exists>entry \<in> set (entries e). inWindow w entry"
    using nth_mem by blast
  with Some i show ?thesis
    by (auto simp add: setTimeWindow_index setTimeWindow_window)
qed

text \<open>
  C7 on the entries with offsets 0, 5, 12, 18, 25 and the window from 10 to 20: an idle
  engine ends at index 2, the entry with offset 12; a playing engine keeps its index.
\<close>

theorem setTimeWindow_snaps_witness:
  "\<not> isPlaying (state (offsetEngine 0))
   \<and> (\<exists>entry \<in> set (entries (offsetEngine 0)). inWindow window_10_20 entry)
   \<and> currentEntryIndex (state (setTimeWindow window_10_20 (offsetEngine 0))) = 2
   \<and> cumulativeStartTime (entries (offsetEngine 0) ! 2) = 12
   \<and> isPlaying (state playingEngine)
   \<and> currentEntryIndex (state (setTimeWindow window_10_20 playingEngine)) = 1"
proof -
  have idle: "\<not> isPlaying (state (offsetEngine 0))"
    by (simp add: offsetEngine_def newEngine_def createInitialState_def)
  have ex: "\<exists>entry \<in> set (entries (offsetEngine 0)). inWindow window_10_20 entry"
    by (simp add: offsetEngine_def newEngine_def offsetEntries_def entryAt_def inWindow_def
        window_10_20_def)
  have at: "inWindow window_10_20 (entries (offsetEngine 0) ! j) \<longleftrightarrow> j = 2 \<or> j = 3"
    if "j < 5" for j
  proof -
    from that have "j = 0 \<or> j = 1 \<or> j = 2 \<or> j = 3 \<or> j = 4"
      by arith
    then show ?thesis
      by (auto simp: offsetEngine_def newEngine_def offsetEntries_def entryAt_def inWindow_def
          window_10_20_def)
  qed
  have len: "length (entries (offsetEngine 0)) = 5"
    by (simp add: offsetEngine_def newEngine_def offsetEntries_def)
  let ?i = "currentEntryIndex (state (setTimeWindow window_10_20 (offsetEngine 0)))"
  from setTimeWindow_snaps_to_first_inside [of window_10_20 "offsetEngine 0"] idle ex
  have i: "?i < 5" "inWindow window_10_20 (entries (offsetEngine 0) ! ?i)"
    "\<forall>j < ?i. \<not> inWindow window_10_20 (entries (offsetEngine 0) ! j)"
    by (simp_all add: len)
  from i(1,2) have "?i = 2 \<or> ?i = 3"
    by (simp add: at)
  moreover have "?i \<noteq> 3"
  proof
    assume "?i = 3"
    with i(3) have "\<not> inWindow window_10_20 (entries (offsetEngine 0) ! 2)"
      by simp
    then show False by (simp add: at)
  qed
  ultimately have two: "?i = 2" by simp
  have off: "cumulativeStartTime (entries (offsetEngine 0) ! 2) = 12"
    by (simp add: offsetEngine_def newEngine_def offsetEntries_def entryAt_def)
  have playing: "isPlaying (state playingEngine)"
    by (simp add: playingEngine_def newEngine_def)
  with setTimeWindow_snaps_to_first_inside [of window_10_20 playingEngine]
  have "currentEntryIndex (state (setTimeWindow window_10_20 playingEngine)) = 1"
    by (simp add: playingEngine_def newEngine_def)
  with idle ex two off playing show ?thesis
    by simp
qed

text \<open>
  C7 as stated lets the index move only when the current entry lies outside the new
  window. With the index at the entry of offset 18, which is inside the window from 10
  to 20, \<^verbatim>\<open>setTimeWindow\<close> still moves it, to the entry of offset 12.
\<close>

theorem setTimeWindow_moves_inside_counterexample:
  "\<not> isPlaying (state (offsetEngine 3))
   \<and> inWindow window_10_20 (entries (offsetEngine 3) ! currentEntryIndex (state (offsetEngine 3)))
   \<and> currentEntryIndex (state (offsetEngine 3)) = 3
   \<and> currentEntryIndex (state (setTimeWindow window_10_20 (offsetEngine 3))) = 2"
  by (simp add: setTimeWindow_index offsetEngine_def newEngine_def createInitialState_def
      offsetEntries_def entryAt_def inWindow_def window_10_20_def)

subsection \<open>A play session\<close>

lemma phaseChanges_append [simp]: "phaseChanges (xs @ ys) = phaseChanges xs @ phaseChanges ys"
  by (induction xs rule: phaseChanges.induct) simp_all

lemma spoken_append [simp]: "spoken (xs @ ys) = spoken xs @ spoken ys"
  by (induction xs rule: spoken.induct) simp_all

lemma completions_append [simp]: "completions (xs @ ys) = completions xs + completions ys"
  by (simp add: completions_def)

lemma playEntry_run:
  assumes "\<not> signalAborted e" "\<not> isPaused (state e)" "\<forall>t l. tts t l = None"
  shows "\<exists>e1. playEntry tts entry e = (Finished, e1)
      \<and> frame e1 = frame e
      \<and> phaseChanges (events e1) = phaseChanges (events e) @ sixPhases
      \<and> spoken (events e1) = spoken (events e) @ fragments entry
      \<and> completions (events e1) = completions (events e)"
  using assms
  by (simp add: playEntry_def andThen_def speakWithAbort_def delayWithAbort_def
      waitWhilePaused_def setPhase_def notifyStateChange_def emit_def signalAborted_def
      Let_def sixPhases_def fragments_def completions_def frame_def)

lemma traversed_past_end:
  "\<not> currentEntryIndex (state e) < length (entries e) \<Longrightarrow> traversed e = []"
  by (simp add: traversed_def)

lemma traversed_step:
  assumes "currentEntryIndex (state e) < length (entries e)"
  shows "traversed e =
     (if reaches (cumulativeStartTime (entries e ! currentEntryIndex (state e))) (endTime (timeWindow e))
      then []
      else entries e ! currentEntryIndex (state e) #
        traversed (e\<lparr>state := (state e)\<lparr>currentEntryIndex := Suc (currentEntryIndex (state e))\<rparr>\<rparr>))"
  using assms by (simp add: traversed_def Cons_nth_drop_Suc [symmetric])

lemma traversed_cong:
  "entries e' = entries e \<Longrightarrow> timeWindow e' = timeWindow e \<Longrightarrow>
   currentEntryIndex (state e') = currentEntryIndex (state e) \<Longrightarrow> traversed e' = traversed e"
  by (simp add: traversed_def)

lemma events_notifyEntryChange:
  "phaseChanges (events (notifyEntryChange e)) = phaseChanges (events e)"
  "spoken (events (notifyEntryChange e)) = spoken (events e)"
  "completions (events (notifyEntryChange e)) = completions (events e)"
  by (simp_all add: notifyEntryChange_def emit_def completions_def split: option.splits)

lemma playLoop_run:
  assumes quiet: "\<forall>t l. tts t l = None"
  shows "\<not> signalAborted e \<Longrightarrow> \<not> isPaused (state e) \<Longrightarrow> isPlaying (state e) \<Longrightarrow>
     \<exists>e1. playLoop tts e = (Finished, e1) \<and> frame e1 = frame (e\<lparr>state := (state e)\<lparr>currentEntryIndex := currentEntryIndex (state e1)\<rparr>\<rparr>)
       \<and> phaseChanges (events e1) =
           phaseChanges (events e) @ concat (map (\<lambda>entry. sixPhases) (traversed e))
       \<and> spoken (events e1) = spoken (events e) @ concat (map fragments (traversed e))
       \<and> completions (events e1) = completions (events e)"
proof (induction "length (entries e) - currentEntryIndex (state e)" arbitrary: e rule: less_induct)
  case less
  let ?i = "currentEntryIndex (state e)"
  show ?case
  proof (cases "?i < length (entries e)")
    case False
    then have "playLoop tts e = (Finished, e)"
      by (subst playLoop.simps) simp
    with False show ?thesis
      by (simp add: traversed_past_end)
  next
    case True
    let ?entry = "entries e ! ?i"
    show ?thesis
    proof (cases "reaches (cumulativeStartTime ?entry) (endTime (timeWindow e))")
      case True
      with \<open>?i < length (entries e)\<close> have "playLoop tts e = (Finished, e)"
        by (subst playLoop.simps) (simp add: Let_def)
      with True \<open>?i < length (entries e)\<close> show ?thesis
        by (simp add: traversed_step)
    next
      case False
      from playEntry_run [OF less.prems(1,2) quiet, of ?entry]
      obtain e1 where e1: "playEntry tts ?entry e = (Finished, e1)" "frame e1 = frame e"
        "phaseChanges (events e1) = phaseChanges (events e) @ sixPhases"
        "spoken (events e1) = spoken (events e) @ fragments ?entry"
        "completions (events e1) = completions (events e)"
        by blast
      from e1(2) have same: "entries e1 = entries e" "timeWindow e1 = timeWindow e"
        "abortController e1 = abortController e" "isPlaying (state e1) = isPlaying (state e)"
        "isPaused (state e1) = isPaused (state e)"
        "currentEntryIndex (state e1) = ?i"
        by (simp_all add: frame_def)
      let ?e2 = "notifyEntryChange (e1\<lparr>state := (state e1)\<lparr>currentEntryIndex := Suc ?i\<rparr>\<rparr>)"
      let ?stay = "length (entries e) \<le> Suc ?i \<or>
          reaches (cumulativeStartTime (entries e ! Suc ?i)) (endTime (timeWindow e))"
      have unfold: "playLoop tts e = (if ?stay then (Finished, e1) else playLoop tts ?e2)"
        using True False less.prems e1(1) same
        by (subst playLoop.simps) (simp add: Let_def signalAborted_def)
      have tr: "traversed e = ?entry # traversed (e\<lparr>state := (state e)\<lparr>currentEntryIndex := Suc ?i\<rparr>\<rparr>)"
        using True False by (simp add: traversed_step)
      show ?thesis
      proof (cases ?stay)
        case True
        then have "traversed (e\<lparr>state := (state e)\<lparr>currentEntryIndex := Suc ?i\<rparr>\<rparr>) = []"
          by (cases "Suc ?i < length (entries e)")
            (simp_all add: traversed_past_end traversed_step)
        with True unfold tr e1 same show ?thesis
          by (simp add: frame_def)
      next
        case stay: False
        have "length (entries ?e2) - currentEntryIndex (state ?e2) < length (entries e) - ?i"
          using True same by simp
        moreover have "\<not> signalAborted ?e2" "\<not> isPaused (state ?e2)" "isPlaying (state ?e2)"
          using less.prems same by (simp_all add: signalAborted_def)
        ultimately obtain e3 where e3: "playLoop tts ?e2 = (Finished, e3)"
          "frame e3 = frame (?e2\<lparr>state := (state ?e2)\<lparr>currentEntryIndex := currentEntryIndex (state e3)\<rparr>\<rparr>)"
          "phaseChanges (events e3) =
             phaseChanges (events ?e2) @ concat (map (\<lambda>entry. sixPhases) (traversed ?e2))"
          "spoken (events e3) = spoken (events ?e2) @ concat (map fragments (traversed ?e2))"
          "completions (events e3) = completions (events ?e2)"
          using less.hyps [of ?e2] by blast
        have tr2: "traversed ?e2 = traversed (e\<lparr>state := (state e)\<lparr>currentEntryIndex := Suc ?i\<rparr>\<rparr>)"
          using same by (intro traversed_cong) simp_all
        have fr: "frame e3 = frame (e\<lparr>state := (state e)\<lparr>currentEntryIndex := currentEntryIndex (state e3)\<rparr>\<rparr>)"
          using e3(2) e1(2) by (simp add: frame_def notifyEntryChange_def emit_def getCurrentEntry_def split: option.splits)
        from stay unfold e3 tr tr2 e1 fr show ?thesis
          by (simp add: events_notifyEntryChange)
      qed
    qed
  qed
qed

lemma events_stop:
  "events (stop e) = events e @ [TtsCancel, StateChange (state (stop e))]"
  by (simp add: stop_def Let_def notifyStateChange_def emit_def stopTimeTracking_def)

lemma traversed_all:
  assumes "currentEntryIndex (state e) = 0"
    and "\<forall>entry \<in> set (entries e). \<not> reaches (cumulativeStartTime entry) (endTime (timeWindow e))"
  shows "traversed e = entries e"
  using assms by (simp add: traversed_def)

text \<open>
  C4: an idle engine with a non-empty entry list is played, every fragment is spoken to
  its end and nothing else calls into the engine. Then \<^verbatim>\<open>play()\<close> returns, and for
  each entry it went through, in array order, it announced exactly the six phases
  english, pause-after-english, spanish-word, pause-after-spanish-word,
  spanish-sentence, between-entries, in this order, and spoke the entry's three
  fragments in between; after the last entry's pause it stopped and called
  \<^verbatim>\<open>onComplete\<close> once, as the last thing it did. The entries it goes through are those
  from the current index up to the end of the time window: all of them when the index is
  0 and no entry starts at or after the window's end.
\<close>

theorem play_six_phases_per_entry:
  assumes "entries e \<noteq> []" and "\<not> isPlaying (state e)" and "\<not> isPaused (state e)"
    and "\<forall>text lg. tts text lg = None"
  shows "\<exists>e'. play tts True e = (Finished, e')
     \<and> phaseChanges (events e') =
         phaseChanges (events e) @ concat (map (\<lambda>entry. sixPhases) (traversed e))
     \<and> spoken (events e') = spoken (events e) @ concat (map fragments (traversed e))
     \<and> completions (events e') = completions (events e) + 1
     \<and> last (events e') = Complete
     \<and> \<not> isPlaying (state e') \<and> currentPhase (state e') = Idle
     \<and> (currentEntryIndex (state e) = 0
          \<and> (\<forall>entry \<in> set (entries e).
                \<not> reaches (cumulativeStartTime entry) (endTime (timeWindow e)))
         \<longrightarrow> traversed e = entries e)"
proof -
  let ?e1 = "e\<lparr>state := (state e)\<lparr>isPlaying := True, isPaused := False\<rparr>,
                abortController := Some False\<rparr>"
  let ?e2 = "notifyStateChange (startTimeTracking ?e1)"
  have start: "\<not> signalAborted ?e2" "\<not> isPaused (state ?e2)" "isPlaying (state ?e2)"
    by (simp_all add: signalAborted_def notifyStateChange_def emit_def startTimeTracking_def)
  have ev2: "events ?e2 = events e @ [StateChange (state ?e2)]"
    by (simp add: notifyStateChange_def emit_def startTimeTracking_def)
  have tr2: "traversed ?e2 = traversed e"
    by (rule traversed_cong)
      (simp_all add: notifyStateChange_def emit_def startTimeTracking_def)
  from playLoop_run [OF assms(4) start]
  obtain e3 where e3: "playLoop tts ?e2 = (Finished, e3)"
    "frame e3 = frame (?e2\<lparr>state := (state ?e2)\<lparr>currentEntryIndex := currentEntryIndex (state e3)\<rparr>\<rparr>)"
    "phaseChanges (events e3) =
       phaseChanges (events ?e2) @ concat (map (\<lambda>entry. sixPhases) (traversed ?e2))"
    "spoken (events e3) = spoken (events ?e2) @ concat (map fragments (traversed ?e2))"
    "completions (events e3) = completions (events ?e2)"
    by blast
  from e3(2) have live: "\<not> signalAborted e3"
    by (simp add: frame_def signalAborted_def notifyStateChange_def emit_def
        startTimeTracking_def)
  let ?e' = "emit Complete (stop e3)"
  have run: "play tts True e = (Finished, ?e')"
    using assms(1-3) e3(1) live
    by (simp add: play_def Let_def playFromCurrent_def andThen_def)
  have ev': "events ?e' = events e3 @ [TtsCancel, StateChange (state (stop e3)), Complete]"
    by (simp add: emit_def events_stop)
  have "phaseChanges (events ?e') =
      phaseChanges (events e) @ concat (map (\<lambda>entry. sixPhases) (traversed e))"
    by (simp add: ev' e3(3) ev2 tr2)
  moreover have "spoken (events ?e') = spoken (events e) @ concat (map fragments (traversed e))"
    by (simp add: ev' e3(4) ev2 tr2)
  moreover have "completions (events ?e') = completions (events e) + 1"
    by (simp add: ev' e3(5) ev2) (simp add: completions_def)
  moreover have "last (events ?e') = Complete"
    by (simp add: ev')
  moreover have "\<not> isPlaying (state ?e')" "currentPhase (state ?e') = Idle"
    by (simp_all add: emit_def stop_def Let_def notifyStateChange_def stopTimeTracking_def)
  ultimately show ?thesis
    using run by (simp add: traversed_all)
qed


text \<open>
  C4 on two entries, loaded into a new engine (index 0, window up to \<^verbatim>\<open>Infinity\<close>).
\<close>

theorem play_six_phases_witness:
  "entries loadedEngine \<noteq> [] \<and> \<not> isPlaying (state loadedEngine)
   \<and> \<not> isPaused (state loadedEngine)
   \<and> fst (play (\<lambda>text lg. None) True loadedEngine) = Finished
   \<and> phaseChanges (events (snd (play (\<lambda>text lg. None) True loadedEngine))) =
       [English, PauseAfterEnglish, SpanishWord, PauseAfterSpanishWord, SpanishSentence,
        BetweenEntries,
        English, PauseAfterEnglish, SpanishWord, PauseAfterSpanishWord, SpanishSentence,
        BetweenEntries]
   \<and> spoken (events (snd (play (\<lambda>text lg. None) True loadedEngine))) =
       [(''action'', En), (''accion'', Es), (''La accion fue emocionante.'', Es),
        (''house'', En), (''casa'', Es), (''Mi casa es tu casa.'', Es)]
   \<and> completions (events (snd (play (\<lambda>text lg. None) True loadedEngine))) = 1
   \<and> last (events (snd (play (\<lambda>text lg. None) True loadedEngine))) = Complete"
proof -
  have pre: "entries loadedEngine \<noteq> []" "\<not> isPlaying (state loadedEngine)"
    "\<not> isPaused (state loadedEngine)"
    by (simp_all add: loadedEngine_def setEntries_def newEngine_def notifyStateChange_def
        emit_def createInitialState_def twoEntries_def)
  have quiet: "\<forall>text lg. (\<lambda>text lg. None :: string option) text lg = None"
    by simp
  have all: "traversed loadedEngine = twoEntries"
    by (simp add: traversed_def loadedEngine_def setEntries_def newEngine_def
        notifyStateChange_def emit_def createInitialState_def twoEntries_def)
  have before: "phaseChanges (events loadedEngine) = []" "spoken (events loadedEngine) = []"
    "completions (events loadedEngine) = 0"
    by (simp_all add: loadedEngine_def setEntries_def newEngine_def notifyStateChange_def
        emit_def completions_def)
  from play_six_phases_per_entry [OF pre quiet]
  obtain e' where "play (\<lambda>text lg. None) True loadedEngine = (Finished, e')"
    "phaseChanges (events e') =
       phaseChanges (events loadedEngine) @ concat (map (\<lambda>entry. sixPhases) (traversed loadedEngine))"
    "spoken (events e') =
       spoken (events loadedEngine) @ concat (map fragments (traversed loadedEngine))"
    "completions (events e') = completions (events loadedEngine) + 1"
    "last (events e') = Complete"
    by blast
  with pre all before show ?thesis
    by (simp add: twoEntries_def sixPhases_def fragments_def)
qed

section \<open>Properties of the parser\<close>








section \<open>Properties of the audio cache\<close>

subsection \<open>The cache key\<close>

lemma split_at_bar:
  assumes "c \<notin> set xs" "c \<notin> set ys" "xs @ c # us = ys @ c # vs"
  shows "xs = ys \<and> us = vs"
  using assms
proof (induction xs arbitrary: ys)
  case Nil
  then show ?case by (cases ys) auto
next
  case (Cons x xs)
  then show ?case by (cases ys) auto
qed

lemma cacheKeyMessage_inj:
  assumes "CHR ''|'' \<notin> set t1" "CHR ''|'' \<notin> set v1" "CHR ''|'' \<notin> set t2" "CHR ''|'' \<notin> set v2"
    and "cacheKeyMessage t1 v1 l1 = cacheKeyMessage t2 v2 l2"
  shows "t1 = t2 \<and> v1 = v2 \<and> l1 = l2"
proof -
  from assms(5) have eq: "t1 @ CHR ''|'' # (v1 @ CHR ''|'' # l1) = t2 @ CHR ''|'' # (v2 @ CHR ''|'' # l2)"
    by (simp add: cacheKeyMessage_def)
  from split_at_bar [OF assms(1) assms(3) eq]
  have t: "t1 = t2" and rest: "v1 @ CHR ''|'' # l1 = v2 @ CHR ''|'' # l2"
    by simp_all
  from split_at_bar [OF assms(2) assms(4) rest] t show ?thesis
    by simp
qed

text \<open>
  C1 (as the code has it): the cache key is the SHA-256 digest of the three fields
  joined by bars, so the same triple gives the same digest on every call, and two
  triples whose joined strings are equal get the same digest. When neither text nor
  voice of two triples contains a bar, triples that differ in a field are joined to
  different strings, so that their digests differ unless SHA-256 itself collides.
\<close>

theorem generateCacheKey_hashes_joined_fields:
  "generateCacheKey t1 v1 l1 = sha256_hex (t1 @ ''|'' @ v1 @ ''|'' @ l1)
   \<and> (cacheKeyMessage t1 v1 l1 = cacheKeyMessage t2 v2 l2 \<longrightarrow>
        generateCacheKey t1 v1 l1 = generateCacheKey t2 v2 l2)
   \<and> (CHR ''|'' \<notin> set t1 \<union> set v1 \<union> set t2 \<union> set v2 \<and> (t1, v1, l1) \<noteq> (t2, v2, l2) \<longrightarrow>
        cacheKeyMessage t1 v1 l1 \<noteq> cacheKeyMessage t2 v2 l2)"
proof -
  have "generateCacheKey t1 v1 l1 = sha256_hex (t1 @ ''|'' @ v1 @ ''|'' @ l1)"
    by (simp add: generateCacheKey_def cacheKeyMessage_def)
  moreover have "generateCacheKey t1 v1 l1 = generateCacheKey t2 v2 l2"
    if "cacheKeyMessage t1 v1 l1 = cacheKeyMessage t2 v2 l2"
    using that by (simp add: generateCacheKey_def)
  moreover have "cacheKeyMessage t1 v1 l1 \<noteq> cacheKeyMessage t2 v2 l2"
    if "CHR ''|'' \<notin> set t1 \<union> set v1 \<union> set t2 \<union> set v2" "(t1, v1, l1) \<noteq> (t2, v2, l2)"
    using that cacheKeyMessage_inj [of t1 v1 t2 v2 l1 l2] by auto
  ultimately show ?thesis by blast
qed

text \<open>
  C1 on the two boundary triples, which are joined to the same string, and on two
  triples without a bar that differ in the text.
\<close>

theorem generateCacheKey_witness:
  "cacheKeyMessage ''a|b'' ''c'' ''es-ES'' = cacheKeyMessage ''a'' ''b|c'' ''es-ES''
   \<and> generateCacheKey ''a|b'' ''c'' ''es-ES'' = generateCacheKey ''a'' ''b|c'' ''es-ES''
   \<and> CHR ''|'' \<notin> set ''hola'' \<union> set VOICE_spanish \<union> set ''casa'' \<union> set VOICE_spanish
   \<and> (''hola'', VOICE_spanish, ''es-ES'') \<noteq> (''casa'', VOICE_spanish, ''es-ES'')
   \<and> cacheKeyMessage ''hola'' VOICE_spanish ''es-ES'' \<noteq> cacheKeyMessage ''casa'' VOICE_spanish ''es-ES''"
proof -
  have same: "cacheKeyMessage ''a|b'' ''c'' ''es-ES'' = cacheKeyMessage ''a'' ''b|c'' ''es-ES''"
    by (simp add: cacheKeyMessage_def)
  have nobar: "CHR ''|'' \<notin> set ''hola'' \<union> set VOICE_spanish \<union> set ''casa'' \<union> set VOICE_spanish"
    by (simp add: VOICE_spanish_def)
  have differ: "(''hola'', VOICE_spanish, ''es-ES'') \<noteq> (''casa'', VOICE_spanish, ''es-ES'')"
    by simp
  from generateCacheKey_hashes_joined_fields [of "''a|b''" "''c''" "''es-ES''" "''a''" "''b|c''" "''es-ES''"] same
  have keys: "generateCacheKey ''a|b'' ''c'' ''es-ES'' = generateCacheKey ''a'' ''b|c'' ''es-ES''"
    by blast
  from generateCacheKey_hashes_joined_fields
    [of "''hola''" VOICE_spanish "''es-ES''" "''casa''" VOICE_spanish "''es-ES''"] nobar differ
  have "cacheKeyMessage ''hola'' VOICE_spanish ''es-ES'' \<noteq> cacheKeyMessage ''casa'' VOICE_spanish ''es-ES''"
    by blast
  with same keys nobar differ show ?thesis by blast
qed

text \<open>
  C1 as stated asks for different digests whenever two triples differ, the boundary
  case included. The triples (a|b, c, es-ES) and (a, b|c, es-ES) differ and have the
  same cache key: both are hashed as \<^verbatim>\<open>a|b|c|es-ES\<close>.
\<close>

theorem generateCacheKey_boundary_counterexample:
  "(''a|b'', ''c'', ''es-ES'') \<noteq> (''a'', ''b|c'', ''es-ES'')
   \<and> generateCacheKey ''a|b'' ''c'' ''es-ES'' = generateCacheKey ''a'' ''b|c'' ''es-ES''"
  by (simp add: generateCacheKey_def cacheKeyMessage_def)

subsection \<open>A failing gateway\<close>

lemma files_ensureCacheDir [simp]: "files (ensureCacheDir h) = files h"
  by (simp add: files_def ensureCacheDir_def split: option.splits)

lemma ensureCacheDir_fields [simp]:
  "client (ensureCacheDir h) = client h"
  "cacheIndex (ensureCacheDir h) = cacheIndex h"
  "indexFile (ensureCacheDir h) = indexFile h"
  "gatewayCalls (ensureCacheDir h) = gatewayCalls h"
  "cacheDir (ensureCacheDir h) = Some (files h)"
  by (simp_all add: files_def ensureCacheDir_def split: option.splits)

lemma saveCacheIndex_fields [simp]:
  "client (saveCacheIndex env h) = client h"
  "cacheIndex (saveCacheIndex env h) = cacheIndex h"
  "cacheDir (saveCacheIndex env h) = cacheDir h"
  "files (saveCacheIndex env h) = files h"
  "gatewayCalls (saveCacheIndex env h) = gatewayCalls h"
  by (simp_all add: saveCacheIndex_def files_def)

lemma files_update [simp]:
  "files (h\<lparr>gatewayCalls := calls\<rparr>) = files h"
  "files (h\<lparr>cacheIndex := idx\<rparr>) = files h"
  "files (h\<lparr>indexFile := file\<rparr>) = files h"
  "files (h\<lparr>cacheDir := Some dir\<rparr>) = dir"
  by (simp_all add: files_def)




text \<open>
  A stream that ends without a single chunk is no failure for the handler: the empty
  audio is written to the cache like any other.
\<close>

lemma synthesizeSpeech_empty_stream:
  assumes "client h" and "gateway (selectVoice language voice) t = StreamEnds []"
    and "\<not> existsSync h (generateCacheKey t (selectVoice language voice) (localeOf language) @ ''.mp3'')"
    and "writeError env (generateCacheKey t (selectVoice language voice) (localeOf language) @ ''.mp3'') = None"
  shows "\<exists>h'. synthesizeSpeech env now stamp accessed gateway h t language voice = (Returns [], h')
     \<and> map_of (files h') (generateCacheKey t (selectVoice language voice) (localeOf language) @ ''.mp3'')
         = Some []
     \<and> map_option fileSize (map_of (indexEntries (cacheIndex h'))
           (generateCacheKey t (selectVoice language voice) (localeOf language))) = Some 0"
  using assms
  by (auto simp: synthesizeSpeech_def synthesizeStart_def synthesizeFinish_def Let_def
      existsSync_def writeFile_def update_conv')


subsection \<open>Calls in flight\<close>

lemma map_of_update_same: "map_of (AList.update k v al) k = Some v"
  by (simp add: update_conv')

text \<open>
  C2 (as the code has it): the handler keeps no record of the calls in flight; a call
  looks for the blob on disk and nowhere else. With the client set, a call whose blob is
  on disk when it starts returns it and does not call the gateway; a call whose blob is
  not on disk calls the gateway once. A second call with the same text, voice and
  language that starts while the first waits for the gateway finds no blob either and
  calls the gateway again: two calls of the gateway for one key. A call that starts
  after the first has ended well and written its blob is served from the cache, and the
  gateway has been called once in all.
\<close>

theorem synthesizeStart_consults_the_disk_only:
  assumes "client h"
  shows "(existsSync h (generateCacheKey t (selectVoice language voice) (localeOf language) @ ''.mp3'') \<longrightarrow>
       (\<exists>audio h'. synthesizeStart env now h t language voice = (Hit audio, h')
          \<and> gatewayCalls h' = gatewayCalls h))
     \<and> (\<not> existsSync h (generateCacheKey t (selectVoice language voice) (localeOf language) @ ''.mp3'') \<longrightarrow>
       (\<exists>req h1 h2. synthesizeStart env now h t language voice = (Miss req, h1)
          \<and> gatewayCalls h1 = gatewayCalls h @ [(selectVoice language voice, t)]
          \<and> synthesizeStart env now' h1 t language voice = (Miss req, h2)
          \<and> gatewayCalls h2 =
               gatewayCalls h @ [(selectVoice language voice, t), (selectVoice language voice, t)]
          \<and> (writeError env (cacheKey req @ ''.mp3'') = None \<longrightarrow>
               (\<exists>h3 h4. synthesizeFinish env stamp accessed h1 req (StreamEnds chunks)
                    = (Returns (concat chunks), h3)
                  \<and> synthesizeStart env now' h3 t language voice = (Hit (concat chunks), h4)
                  \<and> gatewayCalls h4 = gatewayCalls h @ [(selectVoice language voice, t)]))))"
  using assms
  by (auto simp: synthesizeStart_def synthesizeFinish_def Let_def existsSync_def writeFile_def
      map_of_update_same)

text \<open>
  C2 as stated allows one call of the gateway for two calls made while the first is
  pending. On an empty cache two calls for ``hola'' start one after the other, before
  any answer of the gateway: each is a miss, and the gateway is called twice.
\<close>

theorem synthesizeStart_twice_counterexample:
  "fst (synthesizeStart friendly 5 freshHandler ''hola'' Es None) = Miss holaRequest
   \<and> fst (synthesizeStart friendly 6 (snd (synthesizeStart friendly 5 freshHandler ''hola'' Es None))
          ''hola'' Es None) = Miss holaRequest
   \<and> gatewayCalls (snd (synthesizeStart friendly 6
          (snd (synthesizeStart friendly 5 freshHandler ''hola'' Es None)) ''hola'' Es None))
       = [(VOICE_spanish, ''hola''), (VOICE_spanish, ''hola'')]"
  by (simp add: synthesizeStart_def Let_def freshHandler_def holaRequest_def selectVoice_def
      localeOf_def files_def ensureCacheDir_def)


text \<open>
  C2 on an empty cache: two starts in a row, and a start after the first call has
  stored its audio.
\<close>

theorem synthesizeStart_consults_the_disk_only_witness:
  "client freshHandler
   \<and> \<not> existsSync freshHandler (generateCacheKey ''hola'' (selectVoice Es None) (localeOf Es) @ ''.mp3'')
   \<and> writeError friendly (cacheKey holaRequest @ ''.mp3'') = None
   \<and> (\<exists>h1 h2 h3 h4.
         synthesizeStart friendly 5 freshHandler ''hola'' Es None = (Miss holaRequest, h1)
       \<and> gatewayCalls h1 = [(VOICE_spanish, ''hola'')]
       \<and> synthesizeStart friendly 6 h1 ''hola'' Es None = (Miss holaRequest, h2)
       \<and> gatewayCalls h2 = [(VOICE_spanish, ''hola''), (VOICE_spanish, ''hola'')]
       \<and> synthesizeFinish friendly 7 8 h1 holaRequest (StreamEnds [''ID3'', ''abc''])
            = (Returns ''ID3abc'', h3)
       \<and> client h3
       \<and> existsSync h3 (generateCacheKey ''hola'' (selectVoice Es None) (localeOf Es) @ ''.mp3'')
       \<and> synthesizeStart friendly 6 h3 ''hola'' Es None = (Hit ''ID3abc'', h4)
       \<and> gatewayCalls h4 = [(VOICE_spanish, ''hola'')])"
proof -
  have pre: "client freshHandler"
    "\<not> existsSync freshHandler (generateCacheKey ''hola'' (selectVoice Es None) (localeOf Es) @ ''.mp3'')"
    "gatewayCalls freshHandler = []" "selectVoice Es None = VOICE_spanish"
    by (simp_all add: freshHandler_def existsSync_def files_def selectVoice_def)
  have ok: "writeError friendly p = None" for p
    by (simp add: friendly_def)
  from synthesizeStart_consults_the_disk_only
    [of freshHandler "''hola''" Es None friendly 5 6 7 8 "[''ID3'', ''abc'']"] pre ok
  obtain req h1 h2 h3 h4
    where run: "synthesizeStart friendly 5 freshHandler ''hola'' Es None = (Miss req, h1)"
      "gatewayCalls h1 = [(VOICE_spanish, ''hola'')]"
      "synthesizeStart friendly 6 h1 ''hola'' Es None = (Miss req, h2)"
      "gatewayCalls h2 = [(VOICE_spanish, ''hola''), (VOICE_spanish, ''hola'')]"
      "synthesizeFinish friendly 7 8 h1 req (StreamEnds [''ID3'', ''abc'']) = (Returns ''ID3abc'', h3)"
      "synthesizeStart friendly 6 h3 ''hola'' Es None = (Hit ''ID3abc'', h4)"
      "gatewayCalls h4 = [(VOICE_spanish, ''hola'')]"
    by auto
  from run(1) have req: "req = holaRequest"
    by (simp add: synthesizeStart_def Let_def freshHandler_def holaRequest_def selectVoice_def
        localeOf_def files_def ensureCacheDir_def)
  from run(1) have h1: "client h1"
    by (auto simp: synthesizeStart_def Let_def freshHandler_def files_def ensureCacheDir_def)
  from run(5) h1 have h3: "client h3"
    "existsSync h3 (generateCacheKey ''hola'' (selectVoice Es None) (localeOf Es) @ ''.mp3'')"
    by (auto simp: synthesizeFinish_def Let_def ok writeFile_def existsSync_def req
        holaRequest_def pre(4) localeOf_def map_of_update_same)
  from pre ok run h3 show ?thesis
    unfolding req by blast
qed

subsection \<open>Clearing the cache\<close>

lemma unlinkEach_all:
  "\<forall>f \<in> set fs. unlinkError env f = None \<Longrightarrow>
   unlinkEach env fs dir = (None, filter (\<lambda>(name, content). name \<notin> set fs) dir)"
proof (induction fs arbitrary: dir)
  case Nil
  then show ?case by simp
next
  case (Cons f fs)
  then show ?case
    by (auto simp add: AList.delete_eq case_prod_unfold intro: filter_cong)
qed

lemma getCacheStats_empty:
  "indexEntries (cacheIndex h) = [] \<Longrightarrow> totalFiles (getCacheStats now h) = 0"
  by (simp add: getCacheStats_def)

text \<open>
  C8 (as the code has it): provided every unlink of an \<^verbatim>\<open>.mp3\<close> file of the cache
  directory succeeds, \<^verbatim>\<open>clearCache\<close> removes every \<^verbatim>\<open>.mp3\<close> file of the directory, among
  them every blob the index refers to, and leaves the other files; it then resets the
  index to empty and writes it to the index file (if that write succeeds); it returns
  as its count the number of files it removed; afterwards the statistics count 0 files
  and no \<^verbatim>\<open>.mp3\<close> file is left.
\<close>

theorem clearCache_when_every_unlink_succeeds:
  assumes "\<forall>name \<in> set (map fst (files h)). endsWith ''.mp3'' name \<longrightarrow> unlinkError env name = None"
  shows "\<exists>h'. clearCache env h =
        (Returns (length (filter (endsWith ''.mp3'') (map fst (files h)))), h')
     \<and> files h' = filter (\<lambda>(name, content). \<not> endsWith ''.mp3'' name) (files h)
     \<and> length (files h) = length (files h') + length (filter (endsWith ''.mp3'') (map fst (files h)))
     \<and> (\<forall>name \<in> set (map fst (files h')). \<not> endsWith ''.mp3'' name)
     \<and> (\<forall>key \<in> set (map fst (indexEntries (cacheIndex h))). \<not> existsSync h' (key @ ''.mp3''))
     \<and> cacheIndex h' = emptyIndex
     \<and> (writeError env ''cache-index.json'' = None \<longrightarrow> indexFile h' = Some emptyIndex)
     \<and> totalFiles (getCacheStats now h') = 0"
proof -
  let ?mp3s = "filter (endsWith ''.mp3'') (map fst (files h))"
  let ?rest = "filter (\<lambda>(name, content). \<not> endsWith ''.mp3'' name) (files h)"
  have "\<forall>f \<in> set ?mp3s. unlinkError env f = None"
    using assms by auto
  then have "unlinkEach env ?mp3s (files h) =
      (None, filter (\<lambda>(name, content). name \<notin> set ?mp3s) (files h))"
    by (rule unlinkEach_all)
  moreover have "filter (\<lambda>(name, content). name \<notin> set ?mp3s) (files h) = ?rest"
    by (rule filter_cong) (auto simp: rev_image_eqI)
  ultimately have loop: "unlinkEach env ?mp3s (files h) = (None, ?rest)"
    by simp
  let ?h' = "saveCacheIndex env ((ensureCacheDir h)\<lparr>cacheDir := Some ?rest, cacheIndex := emptyIndex\<rparr>)"
  have run: "clearCache env h = (Returns (length ?mp3s), ?h')"
    by (simp add: clearCache_def Let_def loop)
  have files': "files ?h' = ?rest"
    by (simp add: files_def)
  have len: "length (files h) = length ?rest + length ?mp3s"
  proof -
    have "length ?mp3s = length (filter (\<lambda>(name, content). endsWith ''.mp3'' name) (files h))"
      by (simp add: filter_map comp_def case_prod_unfold)
    then show ?thesis
      using sum_length_filter_compl [of "\<lambda>(name, content). endsWith ''.mp3'' name" "files h"]
      by (simp add: case_prod_unfold)
  qed
  have none: "\<forall>name \<in> set (map fst ?rest). \<not> endsWith ''.mp3'' name"
    by auto
  have gone: "\<not> existsSync ?h' (key @ ''.mp3'')" for key
  proof -
    have "endsWith ''.mp3'' (key @ ''.mp3'')"
      by (simp add: endsWith_def)
    with none have "key @ ''.mp3'' \<notin> fst ` set ?rest"
      by auto
    then show ?thesis
      by (simp add: existsSync_def files' map_of_eq_None_iff)
  qed
  have idx: "cacheIndex ?h' = emptyIndex"
    by simp
  have saved: "writeError env ''cache-index.json'' = None \<longrightarrow> indexFile ?h' = Some emptyIndex"
    by (simp add: saveCacheIndex_def)
  have stats: "totalFiles (getCacheStats now ?h') = 0"
    by (rule getCacheStats_empty) (simp add: emptyIndex_def)
  from run files' len none gone idx saved stats show ?thesis
    by (metis (no_types, lifting))
qed

text \<open>
  C8 as stated has \<^verbatim>\<open>clearCache\<close> tolerate an unlink that fails. With two blobs of which
  the second cannot be unlinked, \<^verbatim>\<open>clearCache\<close> throws the error of that unlink: the first
  blob is gone, the second is still there, no count is returned, the index keeps both
  entries and the statistics still count 2.
\<close>

theorem clearCache_aborts_counterexample:
  "fst (clearCache stubborn filledHandler) = Throws ''EPERM''
   \<and> files (snd (clearCache stubborn filledHandler)) = [(''README.md'', ''cache''), (''bb.mp3'', ''defg'')]
   \<and> existsSync (snd (clearCache stubborn filledHandler)) ''bb.mp3''
   \<and> cacheIndex (snd (clearCache stubborn filledHandler)) = cacheIndex filledHandler
   \<and> totalFiles (getCacheStats 2000 (snd (clearCache stubborn filledHandler))) = 2"
  by (simp add: clearCache_def Let_def filledHandler_def stubborn_def files_def ensureCacheDir_def
      endsWith_def existsSync_def getCacheStats_def)


text \<open>C8 on a cache directory with two blobs and a read-me file.\<close>

theorem clearCache_when_every_unlink_succeeds_witness:
  "unlinkError friendly ''aa.mp3'' = None \<and> unlinkError friendly ''bb.mp3'' = None
   \<and> map fst (files filledHandler) = [''README.md'', ''aa.mp3'', ''bb.mp3'']
   \<and> map fst (indexEntries (cacheIndex filledHandler)) = [''aa'', ''bb'']
   \<and> fst (clearCache friendly filledHandler) = Returns 2
   \<and> files (snd (clearCache friendly filledHandler)) = [(''README.md'', ''cache'')]
   \<and> \<not> existsSync (snd (clearCache friendly filledHandler)) ''aa.mp3''
   \<and> \<not> existsSync (snd (clearCache friendly filledHandler)) ''bb.mp3''
   \<and> cacheIndex (snd (clearCache friendly filledHandler)) = emptyIndex
   \<and> indexFile (snd (clearCache friendly filledHandler)) = Some emptyIndex
   \<and> totalFiles (getCacheStats 2000 (snd (clearCache friendly filledHandler))) = 0"
proof -
  have ok: "unlinkError friendly p = None" "writeError friendly p = None" for p
    by (simp_all add: friendly_def)
  have dir: "files filledHandler = [(''README.md'', ''cache''), (''aa.mp3'', ''abc''), (''bb.mp3'', ''defg'')]"
    and keys: "map fst (indexEntries (cacheIndex filledHandler)) = [''aa'', ''bb'']"
    by (simp_all add: filledHandler_def files_def)
  have pre: "\<forall>name \<in> set (map fst (files filledHandler)).
      endsWith ''.mp3'' name \<longrightarrow> unlinkError friendly name = None"
    by (simp add: ok)
  from clearCache_when_every_unlink_succeeds [OF pre, of 2000]
  obtain h' where h': "clearCache friendly filledHandler =
        (Returns (length (filter (endsWith ''.mp3'') (map fst (files filledHandler)))), h')"
      "files h' = filter (\<lambda>(name, content). \<not> endsWith ''.mp3'' name) (files filledHandler)"
      "\<forall>key \<in> set (map fst (indexEntries (cacheIndex filledHandler))). \<not> existsSync h' (key @ ''.mp3'')"
      "cacheIndex h' = emptyIndex"
      "writeError friendly ''cache-index.json'' = None \<longrightarrow> indexFile h' = Some emptyIndex"
      "totalFiles (getCacheStats 2000 h') = 0"
    by (elim exE conjE) (rule that, assumption+)
  from h'(3) have "\<not> existsSync h' ''aa.mp3''" "\<not> existsSync h' ''bb.mp3''"
    by (simp_all add: keys)
  with h' ok dir keys show ?thesis
    by (simp add: endsWith_def)
qed

section \<open>Properties of the exporter\<close>

lemma set_addFile [simp]: "set (addFile p ps) = insert p (set ps)"
  by (auto simp: addFile_def)

lemma tempDir_onProgress [simp]: "tempDir (onProgress phase percent w) = tempDir w"
  by (simp add: onProgress_def)

lemma generateSilence_keeps:
  assumes "generateSilence env duration p w = (r, w')"
  shows "set (tempDir w) \<subseteq> set (tempDir w')" and "r = None \<Longrightarrow> p \<in> set (tempDir w')"
    and "(r = None) = (silenceError env duration = None)"
  using assms by (auto simp: generateSilence_def split: option.splits)

lemma fragment_keeps:
  assumes "fragment env t language p w = (r, w')"
  shows "set (tempDir w) \<subseteq> set (tempDir w')"
  using assms
  by (auto simp: fragment_def split: option.splits prod.splits result.splits)

lemma exportEntries_keeps:
  assumes "exportEntries env n silences i es audioPaths tempFiles w = (r, w')"
  shows "set (tempDir w) \<subseteq> set (tempDir w')"
  using assms
proof (induction es arbitrary: i audioPaths tempFiles w)
  case Nil
  then show ?case by simp
next
  case (Cons entry rest)
  obtain s1 s2 s3 where s: "silences = (s1, s2, s3)"
    by (cases silences) auto
  let ?w0 = "onProgress (GeneratingTTS (i + 1) n) ((i * 70) div n) w"
  obtain r1 w1 where f1: "fragment env (englishWord entry) En (TempEn i) ?w0 = (r1, w1)"
    by fastforce
  from fragment_keeps [OF f1] have k1: "set (tempDir w) \<subseteq> set (tempDir w1)"
    by simp
  show ?case
  proof (cases r1)
    case (Inl msg)
    with Cons.prems s f1 k1 show ?thesis by (simp add: Let_def)
  next
    case (Inr a1)
    obtain p1 t1 where a1: "a1 = (p1, t1)" by (cases a1)
    obtain r2 w2 where f2: "fragment env (spanishWord entry) Es (TempEsWord i) w1 = (r2, w2)"
      by fastforce
    from fragment_keeps [OF f2] k1 have k2: "set (tempDir w) \<subseteq> set (tempDir w2)"
      by blast
    show ?thesis
    proof (cases r2)
      case (Inl msg)
      with Cons.prems s f1 Inr a1 f2 k2 show ?thesis by (simp add: Let_def)
    next
      case r2: (Inr a2)
      obtain p2 t2 where a2: "a2 = (p2, t2)" by (cases a2)
      obtain r3 w3 where f3: "fragment env (spanishSentence entry) Es (TempEsSentence i) w2 = (r3, w3)"
        by fastforce
      from fragment_keeps [OF f3] k2 have k3: "set (tempDir w) \<subseteq> set (tempDir w3)"
        by blast
      show ?thesis
      proof (cases r3)
        case (Inl msg)
        with Cons.prems s f1 Inr a1 f2 r2 a2 f3 k3 show ?thesis by (simp add: Let_def)
      next
        case r3: (Inr a3)
        obtain p3 t3 where a3: "a3 = (p3, t3)" by (cases a3)
        from Cons.prems s f1 Inr a1 f2 r2 a2 f3 r3 a3
        have "\<exists>ap tf. exportEntries env n silences (i + 1) rest ap tf w3 = (r, w')"
          by (auto simp: Let_def)
        then obtain ap tf where "exportEntries env n silences (i + 1) rest ap tf w3 = (r, w')"
          by blast
        from Cons.IH [OF this] k3 show ?thesis by blast
      qed
    qed
  qed
qed

text \<open>
  C9 asks that the temporary fragments and the silence files be deleted whether the
  export succeeds or fails. The code deletes them only after a concatenation that
  succeeded: an export that returns a failure has deleted nothing. Every file that was
  in the temporary directory is still there, and when the three silences were rendered,
  the three silence files are there too.
\<close>

theorem exportAudioFile_failure_cleans_nothing:
  assumes "exportAudioFile env stamp w es filename speed = (Failure msg, w')"
  shows "set (tempDir w) \<subseteq> set (tempDir w')
    \<and> (silenceError env ((15 / 10) / speed) = None \<and> silenceError env ((8 / 10) / speed) = None
         \<and> silenceError env (1 / speed) = None \<longrightarrow>
       {SilencePath (toFixed2 ((15 / 10) / speed)), SilencePath (toFixed2 ((8 / 10) / speed)),
        SilencePath (toFixed2 (1 / speed))} \<subseteq> set (tempDir w'))"
proof -
  let ?w0 = "onProgress PreparingSilence 0 w"
  let ?p1 = "SilencePath (toFixed2 ((15 / 10) / speed))"
  let ?p2 = "SilencePath (toFixed2 ((8 / 10) / speed))"
  let ?p3 = "SilencePath (toFixed2 (1 / speed))"
  obtain r1 w1 where g1: "generateSilence env ((15 / 10) / speed) ?p1 ?w0 = (r1, w1)"
    by fastforce
  obtain r2 w2 where g2: "generateSilence env ((8 / 10) / speed) ?p2 w1 = (r2, w2)"
    by fastforce
  obtain r3 w3 where g3: "generateSilence env (1 / speed) ?p3 w2 = (r3, w3)"
    by fastforce
  obtain r4 w4 where loop: "exportEntries env (length es) (?p1, ?p2, ?p3) 0 es [] [] w3 = (r4, w4)"
    by fastforce
  note k1 = generateSilence_keeps [OF g1]
  note k2 = generateSilence_keeps [OF g2]
  note k3 = generateSilence_keeps [OF g3]
  note k4 = exportEntries_keeps [OF loop]
  show ?thesis
  proof (cases "r1 = None \<and> r2 = None \<and> r3 = None")
    case False
    then consider "r1 \<noteq> None" | "r1 = None" "r2 \<noteq> None" | "r1 = None" "r2 = None" "r3 \<noteq> None"
      by auto
    then show ?thesis
    proof cases
      case 1
      with assms g1 have "w' = w1" by (auto simp: exportAudioFile_def Let_def)
      with 1 k1 show ?thesis by auto
    next
      case 2
      with assms g1 g2 have "w' = w2" by (auto simp: exportAudioFile_def Let_def)
      with 2 k1 k2 show ?thesis by auto
    next
      case 3
      with assms g1 g2 g3 have "w' = w3" by (auto simp: exportAudioFile_def Let_def)
      with 3 k1 k2 k3 show ?thesis by auto
    qed
  next
    case True
    with k1 k2 k3 have sil: "{?p1, ?p2, ?p3} \<subseteq> set (tempDir w3)"
      and old: "set (tempDir w) \<subseteq> set (tempDir w3)"
      by auto
    from assms True g1 g2 g3 loop have "tempDir w' = tempDir w4"
      by (auto simp: exportAudioFile_def Let_def split: sum.splits joining.splits if_splits)
    with sil old k4 show ?thesis by auto
  qed
qed

text \<open>
  C9 on one entry with an empty cache and a gateway that cannot be reached: the export
  fails at the first fragment and returns the cause, and the three silence files
  \<^verbatim>\<open>silence-1.50s.mp3\<close>, \<^verbatim>\<open>silence-0.80s.mp3\<close> and \<^verbatim>\<open>silence-1.00s.mp3\<close> stay in the
  temporary directory.
\<close>

theorem exportAudioFile_failure_witness:
  "fst (exportAudioFile offline ''20260101-120000'' emptyWorkspace [hd twoEntries] ''words.txt'' 1)
     = Failure ''connect ECONNREFUSED''
   \<and> silenceError offline ((15 / 10) / 1) = None \<and> silenceError offline ((8 / 10) / 1) = None
   \<and> silenceError offline (1 / 1) = None
   \<and> set (tempDir (snd (exportAudioFile offline ''20260101-120000'' emptyWorkspace [hd twoEntries]
          ''words.txt'' 1)))
      = {SilencePath 150, SilencePath 80, SilencePath 100}"
proof -
  let ?run = "exportAudioFile offline ''20260101-120000'' emptyWorkspace [hd twoEntries] ''words.txt'' 1"
  have sil: "silenceError offline d = None" for d
    by (simp add: offline_def)
  have fixed: "toFixed2 (3 / 2) = 150" "toFixed2 (4 / 5) = 80" "toFixed2 1 = 100"
    by (simp_all add: toFixed2_def)
  have miss: "getCachedAudioPath freshHandler t l = None" for t l
    by (simp add: getCachedAudioPath_def Let_def existsSync_def files_def freshHandler_def)
  have synth: "fst (synthesizeSpeech friendly 1000 1000 1000 unreachable freshHandler t l None)
      = Throws ''connect ECONNREFUSED''" for t l
    by (simp add: synthesizeSpeech_def synthesizeStart_def synthesizeFinish_def Let_def
        freshHandler_def files_def ensureCacheDir_def unreachable_def)
  have res: "fst ?run = Failure ''connect ECONNREFUSED''"
    and dir: "set (tempDir (snd ?run)) \<subseteq> {SilencePath 150, SilencePath 80, SilencePath 100}"
    using synth [of "''action''" En]
    by (auto simp: exportAudioFile_def Let_def generateSilence_def sil fixed emptyWorkspace_def
        onProgress_def twoEntries_def fragment_def miss offline_def addFile_def
        split: prod.splits result.splits)
  from res have "?run = (Failure ''connect ECONNREFUSED'', snd ?run)"
    by (metis prod.collapse)
  from exportAudioFile_failure_cleans_nothing [OF this] sil fixed
  have "{SilencePath 150, SilencePath 80, SilencePath 100} \<subseteq> set (tempDir (snd ?run))"
    by simp
  with res dir sil show ?thesis
    by auto
qed

subsection \<open>A concatenation that fails\<close>

lemma fragment_succeeds:
  assumes "client (handlerState w)"
    and "\<forall>v t. failed (studioGateway env v t) = None"
    and "\<forall>p. writeError (cacheIo env) p = None"
    and "\<forall>p. tempWriteError env p = None"
  shows "\<exists>r w'. fragment env t language p w = (Inr r, w') \<and> client (handlerState w')
     \<and> outputDir w' = outputDir w"
proof (cases "getCachedAudioPath (handlerState w) t language")
  case (Some cached)
  with assms(1) show ?thesis
    by (auto simp: fragment_def)
next
  case None
  then have miss: "\<not> existsSync (handlerState w)
      (generateCacheKey t (selectVoice language None) (localeOf language) @ ''.mp3'')"
    by (auto simp: getCachedAudioPath_def Let_def selectVoice_def localeOf_def VOICE_spanish_def
        VOICE_english_def split: if_splits)
  from assms(2) have "failed (studioGateway env (selectVoice language None) t) = None"
    by blast
  then obtain chunks
    where ends: "studioGateway env (selectVoice language None) t = StreamEnds chunks"
    by (cases "studioGateway env (selectVoice language None) t") (simp_all add: failed_def)
  have "\<exists>audio h. synthesizeSpeech (cacheIo env) (studioClock env) (studioClock env)
      (studioClock env) (studioGateway env) (handlerState w) t language None = (Returns audio, h)
      \<and> client h"
    using assms(1,3) miss ends
    by (simp add: synthesizeSpeech_def synthesizeStart_def synthesizeFinish_def Let_def
        existsSync_def writeFile_def)
  with None assms(4) show ?thesis
    by (auto simp: fragment_def)
qed

lemma exportEntries_succeeds:
  assumes "\<forall>v t. failed (studioGateway env v t) = None"
    and "\<forall>p. writeError (cacheIo env) p = None"
    and "\<forall>p. tempWriteError env p = None"
  shows "client (handlerState w) \<Longrightarrow>
    \<exists>r w'. exportEntries env n silences i es audioPaths tempFiles w = (Inr r, w')
      \<and> outputDir w' = outputDir w"
proof (induction es arbitrary: i audioPaths tempFiles w)
  case Nil
  then show ?case by simp
next
  case (Cons entry rest)
  obtain s1 s2 s3 where s: "silences = (s1, s2, s3)"
    by (cases silences) auto
  let ?w0 = "onProgress (GeneratingTTS (i + 1) n) ((i * 70) div n) w"
  have c0: "client (handlerState ?w0)" and o0: "outputDir ?w0 = outputDir w"
    using Cons.prems by (simp_all add: onProgress_def)
  from fragment_succeeds [OF c0 assms]
  obtain p1 t1 w1 where f1: "fragment env (englishWord entry) En (TempEn i) ?w0 = (Inr (p1, t1), w1)"
    and c1: "client (handlerState w1)" and o1: "outputDir w1 = outputDir ?w0"
    by (metis surj_pair)
  from fragment_succeeds [OF c1 assms]
  obtain p2 t2 w2 where f2: "fragment env (spanishWord entry) Es (TempEsWord i) w1 = (Inr (p2, t2), w2)"
    and c2: "client (handlerState w2)" and o2: "outputDir w2 = outputDir w1"
    by (metis surj_pair)
  from fragment_succeeds [OF c2 assms]
  obtain p3 t3 w3 where f3: "fragment env (spanishSentence entry) Es (TempEsSentence i) w2 = (Inr (p3, t3), w3)"
    and c3: "client (handlerState w3)" and o3: "outputDir w3 = outputDir w2"
    by (metis surj_pair)
  from Cons.IH [OF c3] o0 o1 o2 o3 f1 f2 f3 show ?case
    by (simp add: s Let_def)
qed

text \<open>
  Two entries, an empty cache and a concatenation that fails and leaves a file behind:
  the export returns the failure, and the file of ffmpeg stays in the output directory.
\<close>

lemma exportAudioFile_failed_concatenation:
  "fst (exportAudioFile jammed ''20260101-120000'' emptyWorkspace twoEntries ''words.txt'' 2)
     = Failure ''ffmpeg exited with code 1''
   \<and> outputDir (snd (exportAudioFile jammed ''20260101-120000'' emptyWorkspace twoEntries
        ''words.txt'' 2)) = [OutputPath ''words'' ''20260101-120000'']"
proof -
  have env: "\<forall>v t. failed (studioGateway jammed v t) = None"
    "\<forall>p. writeError (cacheIo jammed) p = None" "\<forall>p. tempWriteError jammed p = None"
    by (simp_all add: jammed_def failed_def friendly_def)
  have base: "baseName ''words.txt'' = ''words''"
    by (simp add: baseName_def Let_def)
  let ?w3 = "\<lparr>handlerState = freshHandler,
      tempDir = [SilencePath 75, SilencePath 40, SilencePath 50], outputDir = [],
      reported = [(PreparingSilence, 0)]\<rparr>"
  have "client (handlerState ?w3)"
    by (simp add: freshHandler_def)
  from exportEntries_succeeds [OF env this]
  obtain r w4 where loop: "exportEntries jammed (length twoEntries)
      (SilencePath 75, SilencePath 40, SilencePath 50) 0 twoEntries [] [] ?w3 = (Inr r, w4)"
    and "outputDir w4 = outputDir ?w3"
    by blast
  then have out: "outputDir w4 = []"
    by simp
  have fixed: "toFixed2 (3 / 4) = 75" "toFixed2 (2 / 5) = 40" "toFixed2 (1 / 2) = 50"
    by (simp_all add: toFixed2_def)
  obtain ap tf where r: "r = (ap, tf)" by (cases r)
  have silence: "silenceError jammed d = None" for d
    by (simp add: jammed_def)
  have join: "concatenation jammed = JoinFails ''ffmpeg exited with code 1'' True"
    by (simp add: jammed_def)
  show ?thesis
    using loop out
    by (simp add: exportAudioFile_def Let_def generateSilence_def silence fixed base join r
        onProgress_def addFile_def emptyWorkspace_def)
qed

section \<open>Properties of a pause phase\<close>

lemma pollWhilePaused_steps:
  assumes "\<forall>j<k. paused (t + 100 * real j)" and "\<not> paused (t + 100 * real k)"
  shows "pollWhilePaused paused t = Some (t + 100 * real k)"
  using assms
proof (induction k arbitrary: t)
  case 0
  then show ?case by (subst pollWhilePaused.simps) simp
next
  case (Suc k)
  have shift: "t + 100 * real (Suc j) = t + 100 + 100 * real j" for j
    by (simp add: algebra_simps)
  from Suc.prems(1) have "paused (t + 100 * real 0)"
    by blast
  then have now: "paused t"
    by simp
  have "\<forall>j<k. paused (t + 100 + 100 * real j)"
  proof (intro allI impI)
    fix j assume "j < k"
    then have "Suc j < Suc k"
      by simp
    with Suc.prems(1) have "paused (t + 100 * real (Suc j))"
      by blast
    then show "paused (t + 100 + 100 * real j)"
      unfolding shift .
  qed
  moreover have "\<not> paused (t + 100 + 100 * real k)"
    using Suc.prems(2) unfolding shift .
  ultimately have "pollWhilePaused paused (t + 100) = Some (t + 100 + 100 * real k)"
    by (rule Suc.IH)
  then have "pollWhilePaused paused (t + 100) = Some (t + 100 * real (Suc k))"
    unfolding shift .
  with now show ?case
    by (subst pollWhilePaused.simps) (simp only: if_True)
qed

text \<open>
  C6 (as the code has it): the engine is paused at time \<open>a\<close> during a pause phase of
  \<open>ms\<close> milliseconds and resumed at time \<open>b\<close>. The timer of the phase is not
  suspended: it runs on while the engine is paused. When the engine is resumed before
  the deadline, the phase ends at the deadline that was set at its start, the paused
  time included: it is neither restarted nor extended. When the engine is still paused
  at the deadline, the phase ends at the first of the polls, 100 milliseconds apart, at
  which the engine is no longer paused, which is less than 100 milliseconds after the
  resume.
\<close>

theorem delay_timer_runs_while_paused:
  assumes "0 \<le> a" and "a < b" and "a \<le> ms"
  shows "(b \<le> ms \<longrightarrow> delayEnd (pausedBetween a b) ms = Some ms)
     \<and> (ms < b \<longrightarrow>
          (\<exists>k. 0 < k \<and> delayEnd (pausedBetween a b) ms = Some (ms + 100 * real k)
             \<and> b \<le> ms + 100 * real k \<and> ms + 100 * real k < b + 100))"
proof (intro conjI impI)
  assume "b \<le> ms"
  then have "\<not> pausedBetween a b ms"
    by (simp add: pausedBetween_def)
  then show "delayEnd (pausedBetween a b) ms = Some ms"
    unfolding delayEnd_def by (subst pollWhilePaused.simps) simp
next
  assume late: "ms < b"
  define k where "k = nat \<lceil>(b - ms) / 100\<rceil>"
  have pos: "0 < (b - ms) / 100"
    using late by simp
  then have kpos: "0 < k"
    unfolding k_def by simp
  have rk: "real k = of_int \<lceil>(b - ms) / 100\<rceil>"
    unfolding k_def using pos by (simp add: less_imp_le)
  have up: "(b - ms) / 100 \<le> real k"
    unfolding rk by (rule le_of_int_ceiling)
  have low: "real k < (b - ms) / 100 + 1"
    unfolding rk using ceiling_correct [of "(b - ms) / 100"] by linarith
  have before_k: "pausedBetween a b (ms + 100 * real j)" if "j < k" for j
  proof -
    from that have "Suc j \<le> k"
      by simp
    then have "real (Suc j) \<le> real k"
      by (simp only: of_nat_le_iff)
    then have "real j + 1 \<le> real k"
      by simp
    with low have "real j < (b - ms) / 100"
      by linarith
    then have "ms + 100 * real j < b"
      by (simp add: field_simps)
    moreover have "a \<le> ms + 100 * real j"
      using assms(3) by simp
    ultimately show ?thesis
      by (simp add: pausedBetween_def)
  qed
  have at_k: "\<not> pausedBetween a b (ms + 100 * real k)"
    using up by (simp add: pausedBetween_def field_simps)
  have "delayEnd (pausedBetween a b) ms = Some (ms + 100 * real k)"
    unfolding delayEnd_def using before_k at_k by (intro pollWhilePaused_steps) simp_all
  moreover have "b \<le> ms + 100 * real k"
    using up by (simp add: field_simps)
  moreover have "ms + 100 * real k < b + 100"
    using low by (simp add: field_simps)
  ultimately show "\<exists>k. 0 < k \<and> delayEnd (pausedBetween a b) ms = Some (ms + 100 * real k)
      \<and> b \<le> ms + 100 * real k \<and> ms + 100 * real k < b + 100"
    using kpos by blast
qed


text \<open>
  C6 on a pause one of 1500 milliseconds: paused from 750 to 1250, and paused from 200
  to 4950.
\<close>

theorem delay_timer_runs_while_paused_witness:
  "(0::real) \<le> 750 \<and> (750::real) < 1250 \<and> (750::real) \<le> 1500 \<and> (1250::real) \<le> 1500
   \<and> delayEnd (pausedBetween 750 1250) 1500 = Some 1500
   \<and> (0::real) \<le> 200 \<and> (200::real) < 4950 \<and> (200::real) \<le> 1500 \<and> (1500::real) < 4950
   \<and> (\<exists>k. 0 < k \<and> delayEnd (pausedBetween 200 4950) 1500 = Some (1500 + 100 * real k)
         \<and> 4950 \<le> 1500 + 100 * real k \<and> 1500 + 100 * real k < 4950 + 100)"
  using delay_timer_runs_while_paused [of 750 1250 1500]
    delay_timer_runs_while_paused [of 200 4950 1500]
  by simp

text \<open>
  C6 as stated has the pause suspend the delay and the resume continue where it left
  off, so that the time played in the phase is the 1500 milliseconds set for it.
  Paused from 750 to 1250, the phase ends at 1500 after 1000 milliseconds of play: the
  750 milliseconds that were left at the pause have shrunk to 250. Paused from 200 to
  4950, the phase ends at 5000, after 250 milliseconds of play.
\<close>

theorem delay_not_suspended_counterexample:
  "delayEnd (pausedBetween 750 1250) 1500 = Some 1500
   \<and> playingTime 750 1250 1500 = 1000
   \<and> delayEnd (pausedBetween 200 4950) 1500 = Some 5000
   \<and> playingTime 200 4950 5000 = 250"
proof -
  have "\<not> pausedBetween 750 1250 1500"
    by (simp add: pausedBetween_def)
  then have short: "delayEnd (pausedBetween 750 1250) 1500 = Some 1500"
    unfolding delayEnd_def by (subst pollWhilePaused.simps) simp
  have "\<forall>j<35. pausedBetween 200 4950 (1500 + 100 * real j)"
    by (auto simp: pausedBetween_def)
  moreover have "\<not> pausedBetween 200 4950 (1500 + 100 * real 35)"
    by (simp add: pausedBetween_def)
  ultimately have "pollWhilePaused (pausedBetween 200 4950) 1500 = Some (1500 + 100 * real 35)"
    by (rule pollWhilePaused_steps)
  then have long: "delayEnd (pausedBetween 200 4950) 1500 = Some 5000"
    by (simp add: delayEnd_def)
  from short long show ?thesis
    by (simp add: playingTime_def)
qed

end
